theory Spec2Isabelle
  imports Main
begin

section \<open>Lisp objects, symbols and packages\<close>

text \<open>
  A shallow embedding of \<^verbatim>\<open>src/pkg.c\<close>, the Common-Lisp style package system. Lisp
  objects that are references (symbols, packages, vectors) are indices into stores kept in
  the state; \<^verbatim>\<open>EQ\<close> on them is equality of the index.
\<close>

type_synonym sym_id = nat
type_synonym pkg_id = nat
type_synonym vec_id = nat

datatype lisp =
    Str string
  | Fixnum int
  | Sym sym_id
  | Pkg pkg_id
  | Vec vec_id

text \<open>
  \<^verbatim>\<open>Qnil\<close> is the symbol at index 0 of the built-in symbols. A character is a fixnum in
  the range of character codes, from 0 to \<^verbatim>\<open>MAX_CHAR\<close> (\<^verbatim>\<open>0x3FFFFF\<close>).
\<close>

definition Qnil :: lisp where
  "Qnil = Sym 0"

definition NILP :: "lisp \<Rightarrow> bool" where
  "NILP x = (x = Qnil)"

text \<open>
  The status of a symbol in a package: the keywords \<^verbatim>\<open>QCinternal\<close>, \<^verbatim>\<open>QCexternal\<close> and
  \<^verbatim>\<open>QCinherited\<close>.
\<close>

datatype status = QCinternal | QCexternal | QCinherited

datatype redirect = SYMBOL_PLAINVAL | SYMBOL_VARALIAS | SYMBOL_LOCALIZED | SYMBOL_FORWARDED

datatype trapped_write = SYMBOL_UNTRAPPED_WRITE | SYMBOL_NOWRITE | SYMBOL_TRAPPED_WRITE

text \<open>
  The fields of \<^verbatim>\<open>struct Lisp_Symbol\<close> that the package code reads or writes. The home
  package is a Lisp object (a package, or nil); the value is \<open>None\<close> while unbound.
\<close>

record symbol =
  sym_name :: string
  sym_package :: lisp
  sym_redirect :: redirect
  sym_value :: "lisp option"
  sym_trapped_write :: trapped_write
  declared_special :: bool

text \<open>
  \<^verbatim>\<open>struct Lisp_Package\<close>. The symbol table is a hash table with test \<^verbatim>\<open>string-equal\<close>
  whose keys are symbols and whose values are statuses: a map from the name to the key
  symbol and its status.
\<close>

record package =
  pkg_name :: string
  nicknames :: "string list"
  use_list :: "lisp list"
  shadowing_symbols :: "lisp list"
  symbols :: "string \<rightharpoonup> (sym_id \<times> status)"

text \<open>
  The state: the stores, their allocation counters, and the global variables of the file.
  A \<open>Pkg p\<close> is a package object when \<open>p\<close> is below \<open>npackages\<close>; \<open>enable_checking\<close> says
  whether the build defines \<^verbatim>\<open>ENABLE_CHECKING\<close>, that is, whether \<^verbatim>\<open>eassert\<close> is compiled in.
  \<^verbatim>\<open>Fchar_to_string\<close>, which makes the string of one character from its code, is not in
  this file: it is the parameter \<open>char_to_string\<close> of the state.
\<close>

record world =
  enable_checking :: bool
  char_to_string :: "int \<Rightarrow> string"
  symbol_heap :: "sym_id \<Rightarrow> symbol"
  nsymbols :: nat
  package_heap :: "pkg_id \<Rightarrow> package"
  npackages :: nat
  vector_heap :: "vec_id \<Rightarrow> lisp list"
  Vpackage_registry :: "string \<rightharpoonup> lisp"
  Vearmuffs_package :: lisp
  Vkeyword_package :: lisp

datatype error =
    Wrong_Type_Argument lisp
  | Args_Out_Of_Range
  | Not_A_String_Designator lisp
  | Not_A_Package lisp
  | Not_Accessible string
  | Is_Internal string
  | Eassert_Failed
  | Invalid_Object

fun PACKAGEP :: "world \<Rightarrow> lisp \<Rightarrow> bool" where
  "PACKAGEP w (Pkg p) = (p < npackages w)"
| "PACKAGEP w _ = False"

fun SYMBOLP :: "lisp \<Rightarrow> bool" where
  "SYMBOLP (Sym s) = True"
| "SYMBOLP _ = False"

fun STRINGP :: "lisp \<Rightarrow> bool" where
  "STRINGP (Str s) = True"
| "STRINGP _ = False"

fun VECTORP :: "lisp \<Rightarrow> bool" where
  "VECTORP (Vec v) = True"
| "VECTORP _ = False"

fun CHARACTERP :: "lisp \<Rightarrow> bool" where
  "CHARACTERP (Fixnum n) = (0 \<le> n \<and> n \<le> 4194303)"
| "CHARACTERP _ = False"

text \<open>
  \<^verbatim>\<open>XPACKAGE\<close>: with checking, taking the package of another object fails an assertion;
  without, it reads memory that is not a package, which the model stops at.
\<close>

fun XPACKAGE :: "world \<Rightarrow> lisp \<Rightarrow> error + package" where
  "XPACKAGE w (Pkg p) =
     (if p < npackages w then Inr (package_heap w p)
      else Inl (if enable_checking w then Eassert_Failed else Invalid_Object))"
| "XPACKAGE w _ = Inl (if enable_checking w then Eassert_Failed else Invalid_Object)"

section \<open>Symbol table\<close>

text \<open>
  \<^verbatim>\<open>lookup_symbol1\<close> and the loop over the use-list in it. The out-parameter \<^verbatim>\<open>status\<close>
  is the flag \<open>st\<close> (is the pointer non-null) and the second component of the result
  (\<open>None\<close> when nothing is written). \<^verbatim>\<open>Qunbound\<close> is \<open>None\<close> in the first component.
\<close>

function lookup_symbol1 ::
    "world \<Rightarrow> string \<Rightarrow> lisp \<Rightarrow> lisp list \<Rightarrow> bool \<Rightarrow> error + (sym_id option \<times> status option)"
  and lookup_use_list ::
    "world \<Rightarrow> string \<Rightarrow> lisp list \<Rightarrow> lisp list \<Rightarrow> error + sym_id option"
where
  "lookup_symbol1 w name package seen st =
     (if \<not> PACKAGEP w package
      then Inl (if enable_checking w then Eassert_Failed else Invalid_Object)
      else case XPACKAGE w package of
        Inl e \<Rightarrow> Inl e
      | Inr pkg \<Rightarrow>
          (case symbols pkg name of
             Some (symbol, s) \<Rightarrow> Inr (Some symbol, if st then Some s else None)
           | None \<Rightarrow>
               (case lookup_use_list w name (use_list pkg) seen of
                  Inl e \<Rightarrow> Inl e
                | Inr symbol \<Rightarrow> Inr (symbol, if st then Some QCinherited else None))))"
| "lookup_use_list w name [] seen = Inr None"
| "lookup_use_list w name (used_package # tail) seen =
     (if used_package \<notin> set seen
      then (case lookup_symbol1 w name used_package (used_package # seen) False of
              Inl e \<Rightarrow> Inl e
            | Inr (Some symbol, _) \<Rightarrow> Inr (Some symbol)
            | Inr (None, _) \<Rightarrow> lookup_use_list w name tail (used_package # seen))
      else lookup_use_list w name tail seen)"
  by pat_completeness auto

definition unseen :: "world \<Rightarrow> lisp list \<Rightarrow> nat" where
  "unseen w seen = card (Pkg ` {..<npackages w} - set seen)"

lemma PACKAGEP_iff: "PACKAGEP w x \<longleftrightarrow> x \<in> Pkg ` {..<npackages w}"
  by (cases x) auto

lemma unseen_Cons_le: "unseen w (x # seen) \<le> unseen w seen"
  unfolding unseen_def by (rule card_mono) auto

lemma unseen_Cons_less:
  assumes "PACKAGEP w x" and "x \<notin> set seen"
  shows "unseen w (x # seen) < unseen w seen"
  unfolding unseen_def
proof (rule psubset_card_mono)
  show "finite (Pkg ` {..<npackages w} - set seen)" by simp
  from assms show "Pkg ` {..<npackages w} - set (x # seen) \<subset> Pkg ` {..<npackages w} - set seen"
    by (auto simp: PACKAGEP_iff)
qed

termination lookup_symbol1
proof (relation "inv_image (less_than <*lex*> less_than <*lex*> less_than)
    (\<lambda>x. case x of
        Inl (w, name, package, seen, st) \<Rightarrow>
          (unseen w seen, if PACKAGEP w package then 2 else (0::nat), 0::nat)
      | Inr (w, name, tail, seen) \<Rightarrow> (unseen w seen, 1, length tail))", goal_cases)
  case 1
  show ?case by (auto simp: wf_lex_prod)
next
  case (2 w name package seen st)
  then show ?case by simp
next
  case (3 w name used_package tail seen)
  then show ?case
    using unseen_Cons_less [of w used_package seen] unseen_Cons_le [of w used_package seen]
    by auto
next
  case (4 w name used_package tail seen)
  then show ?case
    using unseen_Cons_le [of w used_package seen] by auto
next
  case (5 w name used_package tail seen)
  then show ?case by simp
qed

definition lookup_symbol ::
    "world \<Rightarrow> string \<Rightarrow> lisp \<Rightarrow> bool \<Rightarrow> error + (sym_id option \<times> status option)" where
  "lookup_symbol w name package st = lookup_symbol1 w name package [] st"


section \<open>Helpers\<close>

text \<open>The error of using an object that is not a package where the code takes one.\<close>

definition wrong_object :: "world \<Rightarrow> error" where
  "wrong_object w = (if enable_checking w then Eassert_Failed else Invalid_Object)"

definition update_symbol :: "world \<Rightarrow> sym_id \<Rightarrow> (symbol \<Rightarrow> symbol) \<Rightarrow> world" where
  "update_symbol w s f = w\<lparr>symbol_heap := (symbol_heap w)(s := f (symbol_heap w s))\<rparr>"

definition update_package :: "world \<Rightarrow> pkg_id \<Rightarrow> (package \<Rightarrow> package) \<Rightarrow> world" where
  "update_package w p f = w\<lparr>package_heap := (package_heap w)(p := f (package_heap w p))\<rparr>"

definition SYMBOL_NAME :: "world \<Rightarrow> sym_id \<Rightarrow> string" where
  "SYMBOL_NAME w s = sym_name (symbol_heap w s)"

definition SYMBOL_PACKAGE :: "world \<Rightarrow> sym_id \<Rightarrow> lisp" where
  "SYMBOL_PACKAGE w s = sym_package (symbol_heap w s)"

text \<open>
  Modelled from the spec: the symbol construction primitive \<^verbatim>\<open>Fmake_symbol\<close>, which is
  not in this file; it returns a fresh symbol with the given name and no home package.
\<close>

definition Fmake_symbol :: "world \<Rightarrow> string \<Rightarrow> sym_id \<times> world" where
  "Fmake_symbol w name =
     (nsymbols w,
      w\<lparr>symbol_heap := (symbol_heap w)(nsymbols w :=
           \<lparr>sym_name = name, sym_package = Qnil, sym_redirect = SYMBOL_PLAINVAL,
            sym_value = None, sym_trapped_write = SYMBOL_UNTRAPPED_WRITE,
            declared_special = False\<rparr>),
        nsymbols := Suc (nsymbols w)\<rparr>)"

text \<open>
  \<^verbatim>\<open>make_package\<close>: a zeroed package object (every field nil) with the name set and an
  empty symbol table; the size hint of the table is not modelled.
\<close>

definition make_package :: "world \<Rightarrow> string \<Rightarrow> lisp \<times> world" where
  "make_package w name =
     (Pkg (npackages w),
      w\<lparr>package_heap := (package_heap w)(npackages w :=
           \<lparr>pkg_name = name, nicknames = [], use_list = [], shadowing_symbols = [],
            symbols = Map.empty\<rparr>),
        npackages := Suc (npackages w)\<rparr>)"

definition pkg_find_package :: "world \<Rightarrow> lisp \<Rightarrow> error + lisp" where
  "pkg_find_package w name =
     (case name of
        Str s \<Rightarrow> Inr (case Vpackage_registry w s of Some package \<Rightarrow> package | None \<Rightarrow> Qnil)
      | _ \<Rightarrow> Inl (Wrong_Type_Argument name))"

definition register_package :: "world \<Rightarrow> pkg_id \<Rightarrow> world" where
  "register_package w p =
     w\<lparr>Vpackage_registry :=
         fold (\<lambda>nick reg. reg(nick \<mapsto> Pkg p)) (nicknames (package_heap w p))
           ((Vpackage_registry w)(pkg_name (package_heap w p) \<mapsto> Pkg p))\<rparr>"

definition string_from_designator :: "world \<Rightarrow> lisp \<Rightarrow> error + lisp" where
  "string_from_designator w designator =
     (case designator of
        Sym s \<Rightarrow> Inr (Str (SYMBOL_NAME w s))
      | Str s \<Rightarrow> Inr designator
      | Fixnum c \<Rightarrow>
          if CHARACTERP designator then Inr (Str (char_to_string w c))
          else Inl (Not_A_String_Designator designator)
      | _ \<Rightarrow> Inl (Not_A_String_Designator designator))"

definition check_package :: "world \<Rightarrow> lisp \<Rightarrow> error + lisp" where
  "check_package w package =
     (if PACKAGEP w package then Inr package else Inl (Not_A_Package package))"

definition package_from_designator :: "world \<Rightarrow> lisp \<Rightarrow> error + lisp" where
  "package_from_designator w designator =
     (if PACKAGEP w designator then Inr designator
      else case string_from_designator w designator of
        Inl e \<Rightarrow> Inl e
      | Inr name \<Rightarrow>
          (case pkg_find_package w name of
             Inl e \<Rightarrow> Inl e
           | Inr package \<Rightarrow> check_package w package))"

definition package_or_default :: "world \<Rightarrow> lisp \<Rightarrow> error + lisp" where
  "package_or_default w designator =
     (if NILP designator then check_package w (Vearmuffs_package w)
      else package_from_designator w designator)"

section \<open>Adding and removing symbols\<close>

text \<open>
  \<^verbatim>\<open>pkg_add_symbol\<close>, \<^verbatim>\<open>pkg_remove_symbol\<close> and \<^verbatim>\<open>remove_shadowing_symbol\<close>. The table
  operations \<^verbatim>\<open>Fputhash\<close> and \<^verbatim>\<open>Fremhash\<close> act on the entry whose key has the name of
  the symbol: \<^verbatim>\<open>Fputhash\<close> sets the value of that entry and leaves its key symbol, or adds
  an entry if there is none. \<^verbatim>\<open>Fdelq\<close> removes every element that is \<^verbatim>\<open>EQ\<close> to the symbol.
\<close>

definition Fputhash ::
    "sym_id \<Rightarrow> string \<Rightarrow> status \<Rightarrow> (string \<rightharpoonup> (sym_id \<times> status))
      \<Rightarrow> (string \<rightharpoonup> (sym_id \<times> status))" where
  "Fputhash symbol name status h =
     (case h name of
        Some (key, _) \<Rightarrow> h(name \<mapsto> (key, status))
      | None \<Rightarrow> h(name \<mapsto> (symbol, status)))"

definition pkg_add_symbol :: "world \<Rightarrow> sym_id \<Rightarrow> status \<Rightarrow> lisp \<Rightarrow> error + world" where
  "pkg_add_symbol w symbol status package =
     (case package of
        Pkg p \<Rightarrow>
          if p < npackages w
          then Inr (update_package w p
                 (\<lambda>pkg. pkg\<lparr>symbols :=
                    Fputhash symbol (SYMBOL_NAME w symbol) status (symbols pkg)\<rparr>))
          else Inl (wrong_object w)
      | _ \<Rightarrow> Inl (wrong_object w))"

definition pkg_remove_symbol :: "world \<Rightarrow> sym_id \<Rightarrow> lisp \<Rightarrow> error + world" where
  "pkg_remove_symbol w symbol package =
     (case package of
        Pkg p \<Rightarrow>
          if p < npackages w
          then Inr (update_package w p
                 (\<lambda>pkg. pkg\<lparr>symbols := (symbols pkg)(SYMBOL_NAME w symbol := None)\<rparr>))
          else Inl (wrong_object w)
      | _ \<Rightarrow> Inl (wrong_object w))"

definition remove_shadowing_symbol :: "world \<Rightarrow> sym_id \<Rightarrow> lisp \<Rightarrow> error + world" where
  "remove_shadowing_symbol w symbol package =
     (case package of
        Pkg p \<Rightarrow>
          if p < npackages w
          then Inr (update_package w p
                 (\<lambda>pkg. pkg\<lparr>shadowing_symbols := removeAll (Sym symbol) (shadowing_symbols pkg)\<rparr>))
          else Inl (wrong_object w)
      | _ \<Rightarrow> Inl (wrong_object w))"

section \<open>Interning\<close>

text \<open>
  \<^verbatim>\<open>pkg_intern_symbol1\<close>. \<open>existing_symbol\<close> is \<open>None\<close> for \<^verbatim>\<open>Qunbound\<close>. The result is
  the symbol, what was written to \<^verbatim>\<open>*status\<close> (if the pointer \<open>st\<close> is non-null), and the
  new state.
\<close>

definition pkg_intern_symbol1 ::
    "world \<Rightarrow> lisp \<Rightarrow> lisp \<Rightarrow> bool \<Rightarrow> sym_id option \<Rightarrow> error + (sym_id \<times> status option \<times> world)" where
  "pkg_intern_symbol1 w name package st existing_symbol =
     (case name of
        Str nm \<Rightarrow>
          if enable_checking w \<and> \<not> PACKAGEP w package then Inl Eassert_Failed
          else (case lookup_symbol w nm package st of
              Inl e \<Rightarrow> Inl e
            | Inr (Some symbol, s) \<Rightarrow> Inr (symbol, s, w)
            | Inr (None, _) \<Rightarrow>
                (let (symbol, w1) =
                       (case existing_symbol of
                          Some s \<Rightarrow> (s, w)
                        | None \<Rightarrow> Fmake_symbol w nm);
                     w2 = update_symbol w1 symbol (\<lambda>s. s\<lparr>sym_package := package\<rparr>)
                 in if package = Vkeyword_package w2
                    then (case pkg_add_symbol
                                 (update_symbol w2 symbol
                                    (\<lambda>s. s\<lparr>sym_redirect := SYMBOL_PLAINVAL,
                                           sym_value := Some (Sym symbol),
                                           sym_trapped_write := SYMBOL_NOWRITE,
                                           declared_special := True\<rparr>))
                                 symbol QCexternal (Vkeyword_package w2) of
                            Inl e \<Rightarrow> Inl e
                          | Inr w3 \<Rightarrow> Inr (symbol, if st then Some QCexternal else None, w3))
                    else (case pkg_add_symbol w2 symbol QCinternal package of
                            Inl e \<Rightarrow> Inl e
                          | Inr w3 \<Rightarrow> Inr (symbol, if st then Some QCinternal else None, w3))))
      | _ \<Rightarrow> Inl (Wrong_Type_Argument name))"

definition pkg_intern_symbol ::
    "world \<Rightarrow> lisp \<Rightarrow> lisp \<Rightarrow> bool \<Rightarrow> error + (sym_id \<times> status option \<times> world)" where
  "pkg_intern_symbol w name package st = pkg_intern_symbol1 w name package st None"

definition pkg_define_symbol ::
    "world \<Rightarrow> sym_id \<Rightarrow> lisp \<Rightarrow> error + (sym_id \<times> status option \<times> world)" where
  "pkg_define_symbol w symbol package =
     pkg_intern_symbol1 w (Str (SYMBOL_NAME w symbol)) package False (Some symbol)"

text \<open>
  \<^verbatim>\<open>SREF (name, 0) == ':'\<close>: the first byte of the string; the empty string has the
  terminating zero there.
\<close>

fun starts_with_colon :: "string \<Rightarrow> bool" where
  "starts_with_colon [] = False"
| "starts_with_colon (c # cs) = (c = CHR '':'')"

definition pkg_intern_maybe_keyword ::
    "world \<Rightarrow> lisp \<Rightarrow> error + (sym_id \<times> status option \<times> world)" where
  "pkg_intern_maybe_keyword w name =
     (case name of
        Str nm \<Rightarrow>
          if starts_with_colon nm
          then pkg_intern_symbol w (Str (tl nm)) (Vkeyword_package w) False
          else pkg_intern_symbol w name (Vearmuffs_package w) False
      | _ \<Rightarrow> Inl (Wrong_Type_Argument name))"

section \<open>Uninterning\<close>

definition pkg_unintern_symbol :: "world \<Rightarrow> lisp \<Rightarrow> lisp \<Rightarrow> error + (bool \<times> world)" where
  "pkg_unintern_symbol w symbol package0 =
     (case symbol of
        Sym s \<Rightarrow>
          (case package_or_default w package0 of
             Inl e \<Rightarrow> Inl e
           | Inr package \<Rightarrow>
               (case lookup_symbol w (SYMBOL_NAME w s) package True of
                  Inl e \<Rightarrow> Inl e
                | Inr (found, status) \<Rightarrow>
                    (case (if found \<noteq> None \<and> status \<noteq> Some QCinherited
                           then (case remove_shadowing_symbol w s package of
                                   Inl e \<Rightarrow> Inl e
                                 | Inr w1 \<Rightarrow>
                                     (case pkg_remove_symbol w1 s package of
                                        Inl e \<Rightarrow> Inl e
                                      | Inr w2 \<Rightarrow> Inr (True, w2)))
                           else Inr (False, w)) of
                       Inl e \<Rightarrow> Inl e
                     | Inr (removedp, w3) \<Rightarrow>
                         Inr (removedp,
                              if package = SYMBOL_PACKAGE w3 s
                              then update_symbol w3 s (\<lambda>x. x\<lparr>sym_package := Qnil\<rparr>)
                              else w3))))
      | _ \<Rightarrow> Inl (Wrong_Type_Argument symbol))"


section \<open>Old Emacs intern stuff\<close>

text \<open>
  \<^verbatim>\<open>fake_me_an_obarray\<close>: slot 0 of the vector holds the package that stands for it;
  \<^verbatim>\<open>Faref\<close> signals on an empty vector.
\<close>

definition fake_me_an_obarray :: "world \<Rightarrow> lisp \<Rightarrow> error + (lisp \<times> world)" where
  "fake_me_an_obarray w vector =
     (case vector of
        Vec v \<Rightarrow>
          (case vector_heap w v of
             [] \<Rightarrow> Inl Args_Out_Of_Range
           | package # rest \<Rightarrow>
               if \<not> PACKAGEP w package
               then (let (package', w1) = make_package w ''obarray''
                     in Inr (package', w1\<lparr>vector_heap := (vector_heap w1)(v := package' # rest)\<rparr>))
               else Inr (package, w))
      | _ \<Rightarrow> Inl (wrong_object w))"

definition pkg_emacs_intern ::
    "world \<Rightarrow> lisp \<Rightarrow> lisp \<Rightarrow> error + (sym_id \<times> status option \<times> world)" where
  "pkg_emacs_intern w name0 package0 =
     (case name0 of
        Str nm0 \<Rightarrow>
          (let (nm, package1) =
                 (if starts_with_colon nm0 \<and> NILP package0
                  then (tl nm0, Vkeyword_package w)
                  else (nm0, package0))
           in if enable_checking w \<and> starts_with_colon nm then Inl Eassert_Failed
              else (case (if VECTORP package1 then fake_me_an_obarray w package1
                          else Inr (package1, w)) of
                      Inl e \<Rightarrow> Inl e
                    | Inr (package2, w1) \<Rightarrow>
                        (case package_or_default w1 package2 of
                           Inl e \<Rightarrow> Inl e
                         | Inr package \<Rightarrow> pkg_intern_symbol w1 (Str nm) package False)))
      | _ \<Rightarrow> Inl (Wrong_Type_Argument name0))"

text \<open>
  \<^verbatim>\<open>pkg_emacs_intern_soft\<close> returns the symbol found, or nil; the result is a Lisp object.
\<close>

definition pkg_emacs_intern_soft :: "world \<Rightarrow> lisp \<Rightarrow> lisp \<Rightarrow> error + (lisp \<times> world)" where
  "pkg_emacs_intern_soft w orig package0 =
     (case (case orig of Sym s \<Rightarrow> Str (SYMBOL_NAME w s) | _ \<Rightarrow> orig) of
        Str nm0 \<Rightarrow>
          (let (nm, package1) =
                 (if starts_with_colon nm0 \<and> NILP package0
                  then (tl nm0, Vkeyword_package w)
                  else (nm0, package0))
           in case (if VECTORP package1 then fake_me_an_obarray w package1
                    else Inr (package1, w)) of
                Inl e \<Rightarrow> Inl e
              | Inr (package2, w1) \<Rightarrow>
                  (case package_or_default w1 package2 of
                     Inl e \<Rightarrow> Inl e
                   | Inr package \<Rightarrow>
                       (case lookup_symbol w1 nm package False of
                          Inl e \<Rightarrow> Inl e
                        | Inr (None, _) \<Rightarrow> Inr (Qnil, w1)
                        | Inr (Some found, _) \<Rightarrow>
                            if SYMBOLP orig \<and> Sym found \<noteq> orig then Inr (Qnil, w1)
                            else if enable_checking w1 \<and> NILP (SYMBOL_PACKAGE w1 found)
                            then Inl Eassert_Failed
                            else Inr (Sym found, w1))))
      | other \<Rightarrow> Inl (Wrong_Type_Argument other))"

definition pkg_emacs_unintern :: "world \<Rightarrow> lisp \<Rightarrow> lisp \<Rightarrow> error + (bool \<times> world)" where
  "pkg_emacs_unintern w name package0 =
     (case (if VECTORP package0 then fake_me_an_obarray w package0 else Inr (package0, w)) of
        Inl e \<Rightarrow> Inl e
      | Inr (package1, w1) \<Rightarrow>
          (case package_or_default w1 package1 of
             Inl e \<Rightarrow> Inl e
           | Inr package \<Rightarrow> pkg_unintern_symbol w1 name package))"

section \<open>Reader\<close>

text \<open>
  \<^verbatim>\<open>Ffind_symbol\<close> returns nil (\<open>None\<close>) or the list of the symbol and its status. The
  error calls of \<^verbatim>\<open>pkg_qualified_symbol\<close> take \<^verbatim>\<open>XPACKAGE (package)->name\<close> of the argument
  as it was passed, which must be a package object for that.
\<close>

definition Ffind_symbol ::
    "world \<Rightarrow> lisp \<Rightarrow> lisp \<Rightarrow> error + (sym_id \<times> status option) option" where
  "Ffind_symbol w name package0 =
     (case name of
        Str nm \<Rightarrow>
          (case package_or_default w package0 of
             Inl e \<Rightarrow> Inl e
           | Inr package \<Rightarrow>
               (case lookup_symbol w nm package True of
                  Inl e \<Rightarrow> Inl e
                | Inr (None, _) \<Rightarrow> Inr None
                | Inr (Some symbol, status) \<Rightarrow> Inr (Some (symbol, status))))
      | _ \<Rightarrow> Inl (Wrong_Type_Argument name))"

definition Fcl_intern ::
    "world \<Rightarrow> lisp \<Rightarrow> lisp \<Rightarrow> error + (sym_id \<times> status option \<times> world)" where
  "Fcl_intern w name package0 =
     (case name of
        Str nm \<Rightarrow>
          (case package_or_default w package0 of
             Inl e \<Rightarrow> Inl e
           | Inr package \<Rightarrow> pkg_intern_symbol w name package True)
      | _ \<Rightarrow> Inl (Wrong_Type_Argument name))"

definition pkg_qualified_symbol ::
    "world \<Rightarrow> lisp \<Rightarrow> lisp \<Rightarrow> bool \<Rightarrow> error + (sym_id \<times> world)" where
  "pkg_qualified_symbol w name package external =
     (case Ffind_symbol w name package of
        Inl e \<Rightarrow> Inl e
      | Inr found \<Rightarrow>
          if package = Vkeyword_package w
          then (case found of
                  None \<Rightarrow>
                    (case pkg_intern_symbol w name package False of
                       Inl e \<Rightarrow> Inl e
                     | Inr (symbol, _, w1) \<Rightarrow> Inr (symbol, w1))
                | Some (symbol, _) \<Rightarrow> Inr (symbol, w))
          else (case found of
                  None \<Rightarrow>
                    (case XPACKAGE w package of
                       Inl e \<Rightarrow> Inl e
                     | Inr pkg \<Rightarrow> Inl (Not_Accessible (case name of Str nm \<Rightarrow> nm | _ \<Rightarrow> [])))
                | Some (symbol, status) \<Rightarrow>
                    if external \<and> status = Some QCinternal
                    then (case XPACKAGE w package of
                            Inl e \<Rightarrow> Inl e
                          | Inr pkg \<Rightarrow>
                              Inl (Is_Internal (case name of Str nm \<Rightarrow> nm | _ \<Rightarrow> [])))
                    else Inr (symbol, w)))"

definition pkg_unqualified_symbol :: "world \<Rightarrow> lisp \<Rightarrow> error + (sym_id \<times> world)" where
  "pkg_unqualified_symbol w name =
     (case check_package w (Vearmuffs_package w) of
        Inl e \<Rightarrow> Inl e
      | Inr package \<Rightarrow>
          if package = Vkeyword_package w then pkg_qualified_symbol w name package True
          else (case Ffind_symbol w name package of
                  Inl e \<Rightarrow> Inl e
                | Inr (Some (symbol, _)) \<Rightarrow> Inr (symbol, w)
                | Inr None \<Rightarrow>
                    (case pkg_intern_symbol w name package False of
                       Inl e \<Rightarrow> Inl e
                     | Inr (symbol, _, w1) \<Rightarrow> Inr (symbol, w1))))"

definition pkg_keywordp :: "world \<Rightarrow> lisp \<Rightarrow> bool" where
  "pkg_keywordp w obj =
     (case obj of Sym s \<Rightarrow> SYMBOL_PACKAGE w s = Vkeyword_package w | _ \<Rightarrow> False)"

section \<open>Well-formed states\<close>

text \<open>
  Every element of every use-list is a package object. The C code asserts this on entry to
  \<^verbatim>\<open>lookup_symbol1\<close>.
\<close>

definition use_lists_ok :: "world \<Rightarrow> bool" where
  "use_lists_ok w \<longleftrightarrow>
     (\<forall>p < npackages w. \<forall>u \<in> set (use_list (package_heap w p)). PACKAGEP w u)"


section \<open>The calls of one resolution\<close>

text \<open>
  The invocations of \<^verbatim>\<open>lookup_symbol1\<close> that one call gives rise to, itself included, in
  the order in which they are entered: each with its \<^verbatim>\<open>package\<close> and \<^verbatim>\<open>seen\<close>
  arguments. The recursion is that of \<open>lookup_symbol1\<close>; every invocation searches the
  table of its package.
\<close>

function lookup_symbol1_calls ::
    "world \<Rightarrow> string \<Rightarrow> lisp \<Rightarrow> lisp list \<Rightarrow> (lisp \<times> lisp list) list"
  and lookup_use_list_calls ::
    "world \<Rightarrow> string \<Rightarrow> lisp list \<Rightarrow> lisp list \<Rightarrow> (lisp \<times> lisp list) list"
where
  "lookup_symbol1_calls w name package seen =
     (package, seen) #
     (if \<not> PACKAGEP w package then []
      else case XPACKAGE w package of
        Inl e \<Rightarrow> []
      | Inr pkg \<Rightarrow>
          (case symbols pkg name of
             Some found \<Rightarrow> []
           | None \<Rightarrow> lookup_use_list_calls w name (use_list pkg) seen))"
| "lookup_use_list_calls w name [] seen = []"
| "lookup_use_list_calls w name (used_package # tail) seen =
     (if used_package \<notin> set seen
      then lookup_symbol1_calls w name used_package (used_package # seen) @
           (case lookup_symbol1 w name used_package (used_package # seen) False of
              Inl e \<Rightarrow> []
            | Inr (Some symbol, _) \<Rightarrow> []
            | Inr (None, _) \<Rightarrow> lookup_use_list_calls w name tail (used_package # seen))
      else lookup_use_list_calls w name tail seen)"
  by pat_completeness auto

termination lookup_symbol1_calls
proof (relation "inv_image (less_than <*lex*> less_than <*lex*> less_than)
    (\<lambda>x. case x of
        Inl (w, name, package, seen) \<Rightarrow>
          (unseen w seen, if PACKAGEP w package then 2 else (0::nat), 0::nat)
      | Inr (w, name, tail, seen) \<Rightarrow> (unseen w seen, 1, length tail))", goal_cases)
  case 1
  show ?case by (auto simp: wf_lex_prod)
next
  case (2 w name package seen)
  then show ?case by simp
next
  case (3 w name used_package tail seen)
  then show ?case
    using unseen_Cons_less [of w used_package seen] unseen_Cons_le [of w used_package seen]
    by auto
next
  case (4 w name used_package tail seen)
  then show ?case
    using unseen_Cons_le [of w used_package seen] by auto
next
  case (5 w name used_package tail seen)
  then show ?case by simp
qed

declare lookup_symbol1_calls.simps [simp del]








text \<open>
  A recursive call as the loop makes it: the package called is the head of the \<^verbatim>\<open>seen\<close>
  list passed, and is not in the rest of it, which has no duplicates.
\<close>

definition fresh_call :: "lisp \<times> lisp list \<Rightarrow> bool" where
  "fresh_call c =
     (case c of
        (q, s) \<Rightarrow>
          (case s of
             [] \<Rightarrow> False
           | x # s0 \<Rightarrow> x = q \<and> q \<notin> set s0 \<and> distinct s0))"

text \<open>
  The value of the local variable \<^verbatim>\<open>seen\<close> after the loop over a use-list has run through
  the packages \<open>tail\<close> without finding the name.
\<close>

fun seen_after :: "lisp list \<Rightarrow> lisp list \<Rightarrow> lisp list" where
  "seen_after [] seen = seen"
| "seen_after (used_package # tail) seen =
     seen_after tail (if used_package \<notin> set seen then used_package # seen else seen)"

section \<open>Example states\<close>

text \<open>Small concrete states, built from lists of packages and symbols.\<close>

definition mk_symbol :: "string \<Rightarrow> lisp \<Rightarrow> symbol" where
  "mk_symbol name home =
     \<lparr>sym_name = name, sym_package = home, sym_redirect = SYMBOL_PLAINVAL,
      sym_value = None, sym_trapped_write = SYMBOL_UNTRAPPED_WRITE, declared_special = False\<rparr>"

definition mk_package :: "string \<Rightarrow> lisp list \<Rightarrow> (string \<times> sym_id \<times> status) list \<Rightarrow> package" where
  "mk_package name uses entries =
     \<lparr>pkg_name = name, nicknames = [], use_list = uses, shadowing_symbols = [],
      symbols = map_of entries\<rparr>"

definition mk_world :: "bool \<Rightarrow> symbol list \<Rightarrow> package list \<Rightarrow> lisp \<Rightarrow> lisp \<Rightarrow> world" where
  "mk_world chk syms pkgs current keyword =
     \<lparr>enable_checking = chk,
      char_to_string = (\<lambda>c. [char_of c]),
      symbol_heap = (\<lambda>i. if i < length syms then syms ! i else mk_symbol [] Qnil),
      nsymbols = length syms,
      package_heap = (\<lambda>i. if i < length pkgs then pkgs ! i else mk_package [] [] []),
      npackages = length pkgs,
      vector_heap = (\<lambda>i. []),
      Vpackage_registry = Map.empty,
      Vearmuffs_package = current,
      Vkeyword_package = keyword\<rparr>"

text \<open>Two packages that use each other; package 2 is the keyword package.\<close>

definition cycle_world :: world where
  "cycle_world =
     mk_world False [mk_symbol ''nil'' (Pkg 0)]
       [mk_package ''A'' [Pkg 1] [(''nil'', 0, QCinternal)],
        mk_package ''B'' [Pkg 0] [],
        mk_package ''keyword'' [] []]
       (Pkg 0) (Pkg 2)"


text \<open>
  P uses Q; Q has the external symbol FOO and the internal symbol bar; package 2 is the
  keyword package.
\<close>

definition inherit_world :: world where
  "inherit_world =
     mk_world False
       [mk_symbol ''nil'' (Pkg 0), mk_symbol ''FOO'' (Pkg 1), mk_symbol ''bar'' (Pkg 1)]
       [mk_package ''P'' [Pkg 1] [(''nil'', 0, QCinternal)],
        mk_package ''Q'' [] [(''FOO'', 1, QCexternal), (''bar'', 2, QCinternal)],
        mk_package ''keyword'' [] []]
       (Pkg 0) (Pkg 2)"

text \<open>
  A uses C and B, in this order; C has its own symbol x. The second state is the first
  after interning x into B.
\<close>

definition shadow_world :: world where
  "shadow_world =
     mk_world False
       [mk_symbol ''nil'' (Pkg 0), mk_symbol ''x'' (Pkg 2)]
       [mk_package ''A'' [Pkg 2, Pkg 1] [(''nil'', 0, QCinternal)],
        mk_package ''B'' [] [],
        mk_package ''C'' [] [(''x'', 1, QCinternal)],
        mk_package ''keyword'' [] []]
       (Pkg 0) (Pkg 3)"

definition shadow_world_x :: world where
  "shadow_world_x =
     shadow_world
       \<lparr>symbol_heap := (symbol_heap shadow_world)(2 :=
          \<lparr>sym_name = ''x'', sym_package = Pkg 1, sym_redirect = SYMBOL_PLAINVAL,
           sym_value = None, sym_trapped_write = SYMBOL_UNTRAPPED_WRITE,
           declared_special = False\<rparr>),
        nsymbols := 3,
        package_heap := (package_heap shadow_world)(1 := (package_heap shadow_world 1)
          \<lparr>symbols := (symbols (package_heap shadow_world 1))(''x'' \<mapsto> (2, QCinternal))\<rparr>)\<rparr>"



text \<open>
  The current package and the keyword package each have a symbol named frob; checking is on.
\<close>

definition kw_world :: world where
  "kw_world =
     mk_world True
       [mk_symbol ''nil'' (Pkg 0), mk_symbol ''frob'' (Pkg 1), mk_symbol ''frob'' (Pkg 0)]
       [mk_package ''emacs'' [] [(''nil'', 0, QCinternal), (''frob'', 2, QCinternal)],
        mk_package ''keyword'' [] [(''frob'', 1, QCexternal)]]
       (Pkg 0) (Pkg 1)"

section \<open>Properties of the lookup\<close>

declare lookup_symbol1.simps [simp del]

text \<open>
  In a set of packages that is closed under the use-lists and in which no package has the
  name in its own table, the search finds nothing, whatever has been seen.
\<close>

lemma lookup_closed_absent:
  "(\<forall>x\<in>S. \<exists>p. x = Pkg p \<and> p < npackages w \<and>
        symbols (package_heap w p) name = None \<and>
        set (use_list (package_heap w p)) \<subseteq> S) \<Longrightarrow> package \<in> S \<Longrightarrow>
     lookup_symbol1 w name package seen st
       = Inr (None, if st then Some QCinherited else None)"
  "(\<forall>x\<in>S. \<exists>p. x = Pkg p \<and> p < npackages w \<and>
        symbols (package_heap w p) name = None \<and>
        set (use_list (package_heap w p)) \<subseteq> S) \<Longrightarrow> set tail \<subseteq> S \<Longrightarrow>
     lookup_use_list w name tail seen = Inr None"
proof (induction w name package seen st and w name tail seen
       rule: lookup_symbol1_lookup_use_list.induct)
  case (1 w name package seen st)
  from 1(2,3) obtain p where p: "package = Pkg p" "p < npackages w"
    "symbols (package_heap w p) name = None" "set (use_list (package_heap w p)) \<subseteq> S"
    by blast
  have "lookup_use_list w name (use_list (package_heap w p)) seen = Inr None"
    using 1(1) [of "package_heap w p"] p 1(2) by simp
  then show ?case using p by (simp add: lookup_symbol1.simps)
next
  case (2 w name seen)
  show ?case by simp
next
  case (3 w name used_package tail seen)
  show ?case
  proof (cases "used_package \<in> set seen")
    case True
    then show ?thesis using 3 by simp
  next
    case False
    have "lookup_symbol1 w name used_package (used_package # seen) False = Inr (None, None)"
      using 3(1) [OF False 3(4)] 3(5) by simp
    then show ?thesis using False 3(2) [OF False] 3(4,5) by simp
  qed
qed

text \<open>
  The recorded calls are the searches of the lookup: when it finds nothing, every package
  called had no entry for the name; when it finds a symbol, the last package called has it.
\<close>



lemma fresh_callD:
  "fresh_call (q, s) \<Longrightarrow> \<exists>s0. s = q # s0 \<and> q \<notin> set s0 \<and> distinct s0"
  by (cases s) (simp_all add: fresh_call_def)




lemma calls_miss:
  "lookup_symbol1 w name package seen st = Inr (None, so) \<Longrightarrow>
     list_all (\<lambda>c. \<exists>p. fst c = Pkg p \<and> p < npackages w \<and> symbols (package_heap w p) name = None)
       (lookup_symbol1_calls w name package seen)"
  "lookup_use_list w name tail seen = Inr None \<Longrightarrow>
     list_all (\<lambda>c. \<exists>p. fst c = Pkg p \<and> p < npackages w \<and> symbols (package_heap w p) name = None)
       (lookup_use_list_calls w name tail seen)"
proof (induction w name package seen and w name tail seen arbitrary: st so
       rule: lookup_symbol1_calls_lookup_use_list_calls.induct)
  case (1 w name package seen)
  from "1.prems" obtain p where p: "package = Pkg p" "p < npackages w"
    by (cases package) (auto simp: lookup_symbol1.simps split: if_splits)
  from "1.prems" p have n: "symbols (package_heap w p) name = None"
    by (auto simp: lookup_symbol1.simps split: option.splits)
  from "1.prems" p n have u: "lookup_use_list w name (use_list (package_heap w p)) seen = Inr None"
    by (auto simp: lookup_symbol1.simps split: sum.splits)
  have "list_all (\<lambda>c. \<exists>p. fst c = Pkg p \<and> p < npackages w \<and> symbols (package_heap w p) name = None)
          (lookup_use_list_calls w name (use_list (package_heap w p)) seen)"
    by (rule "1.IH" [of "package_heap w p", OF _ _ _ u]) (use p n in simp_all)
  then show ?case using p n
    by (simp add: lookup_symbol1_calls.simps [of w name "Pkg p" seen])
next
  case (2 w name seen)
  show ?case by simp
next
  case (3 w name used_package tail seen)
  show ?case
  proof (cases "used_package \<in> set seen")
    case True
    then show ?thesis using 3 by simp
  next
    case False
    from 3(4) False have a: "lookup_symbol1 w name used_package (used_package # seen) False = Inr (None, None)"
      by (auto simp: lookup_symbol1.simps [of w name used_package] split: sum.splits option.splits if_splits)
    with 3(4) False have b: "lookup_use_list w name tail (used_package # seen) = Inr None"
      by simp
    show ?thesis using False a 3(1) [OF False a] 3(2) [OF False a _ _ b] by simp
  qed
qed

lemma calls_hit:
  "lookup_symbol1 w name package seen st = Inr (Some s, so) \<Longrightarrow>
     (\<exists>p x. fst (last (lookup_symbol1_calls w name package seen)) = Pkg p \<and> p < npackages w \<and>
        symbols (package_heap w p) name = Some (s, x))"
  "lookup_use_list w name tail seen = Inr (Some s) \<Longrightarrow>
     lookup_use_list_calls w name tail seen \<noteq> [] \<and>
     (\<exists>p x. fst (last (lookup_use_list_calls w name tail seen)) = Pkg p \<and> p < npackages w \<and>
        symbols (package_heap w p) name = Some (s, x))"
proof (induction w name package seen and w name tail seen arbitrary: st so
       rule: lookup_symbol1_calls_lookup_use_list_calls.induct)
  case (1 w name package seen)
  from "1.prems" obtain p where p: "package = Pkg p" "p < npackages w"
    by (cases package) (auto simp: lookup_symbol1.simps split: if_splits)
  show ?case
  proof (cases "symbols (package_heap w p) name")
    case None
    with "1.prems" p have u: "lookup_use_list w name (use_list (package_heap w p)) seen = Inr (Some s)"
      by (auto simp: lookup_symbol1.simps split: sum.splits)
    have "lookup_use_list_calls w name (use_list (package_heap w p)) seen \<noteq> [] \<and>
       (\<exists>q x. fst (last (lookup_use_list_calls w name (use_list (package_heap w p)) seen)) = Pkg q \<and>
          q < npackages w \<and> symbols (package_heap w q) name = Some (s, x))"
      by (rule "1.IH" [of "package_heap w p", OF _ _ _ u]) (use p None in simp_all)
    then show ?thesis using p None
      by (simp add: lookup_symbol1_calls.simps [of w name "Pkg p" seen])
  next
    case (Some a)
    with "1.prems" p show ?thesis
      by (cases a) (auto simp: lookup_symbol1.simps lookup_symbol1_calls.simps [of w name "Pkg p" seen])
  qed
next
  case (2 w name seen)
  then show ?case by simp
next
  case (3 w name used_package tail seen)
  show ?case
  proof (cases "used_package \<in> set seen")
    case True
    then show ?thesis using 3 by simp
  next
    case False
    have ne: "lookup_symbol1_calls w name used_package (used_package # seen) \<noteq> []"
      by (simp add: lookup_symbol1_calls.simps [of w name used_package "used_package # seen"])
    show ?thesis
    proof (cases "lookup_symbol1 w name used_package (used_package # seen) False")
      case (Inl e)
      with 3(4) False show ?thesis by simp
    next
      case (Inr r)
      obtain f so' where r: "r = (f, so')" by (cases r)
      show ?thesis
      proof (cases f)
        case None
        with Inr r 3(4) False have b: "lookup_use_list w name tail (used_package # seen) = Inr (Some s)"
          by simp
        show ?thesis using False Inr r None 3(2) [OF False _ _ _ b] by simp
      next
        case (Some s')
        with Inr r 3(4) False have "s' = s" by simp
        with Inr r Some 3(1) [OF False, of False so'] False ne show ?thesis by simp
      qed
    qed
  qed
qed

text \<open>Facts about single calls of the lookup.\<close>

lemma lookup_local_hit:
  "p < npackages w \<Longrightarrow> symbols (package_heap w p) name = Some (s, x) \<Longrightarrow>
     lookup_symbol1 w name (Pkg p) seen st = Inr (Some s, if st then Some x else None)"
  by (simp add: lookup_symbol1.simps)

lemma lookup_status_flag:
  "lookup_symbol1 w name package seen st = Inr (s, so) \<Longrightarrow> (so = None) = (\<not> st)"
  by (auto simp: lookup_symbol1.simps split: if_splits sum.splits option.splits)

lemma lookup_any_flag:
  "lookup_symbol1 w name package seen st =
     (case lookup_symbol1 w name package seen True of
        Inl e \<Rightarrow> Inl e
      | Inr (s, so) \<Rightarrow> Inr (s, if st then so else None))"
  by (auto simp: lookup_symbol1.simps [of w name package seen] split: sum.splits option.splits)

lemma lookup_miss_local:
  "lookup_symbol1 w name (Pkg p) seen st = Inr (None, so) \<Longrightarrow>
     symbols (package_heap w p) name = None"
  by (auto simp: lookup_symbol1.simps split: if_splits sum.splits option.splits)

lemma lookup_is_package:
  "lookup_symbol1 w name package seen st = Inr r \<Longrightarrow> \<exists>p. package = Pkg p \<and> p < npackages w"
  by (cases package) (auto simp: lookup_symbol1.simps split: if_splits)


text \<open>The loop over a use-list, cut in two.\<close>

lemma set_seen_after: "set (seen_after pre seen) = set pre \<union> set seen"
  by (induction pre arbitrary: seen) auto

lemma lookup_use_list_append:
  "lookup_use_list w name pre seen = Inr None \<Longrightarrow>
     lookup_use_list w name (pre @ ys) seen = lookup_use_list w name ys (seen_after pre seen)"
proof (induction pre arbitrary: seen)
  case Nil
  show ?case by simp
next
  case (Cons u pre)
  show ?case
  proof (cases "u \<in> set seen")
    case True
    with Cons show ?thesis by simp
  next
    case False
    from Cons.prems False
    have a: "lookup_symbol1 w name u (u # seen) False = Inr (None, None)"
      and b: "lookup_use_list w name pre (u # seen) = Inr None"
      by (auto split: sum.splits option.splits dest: lookup_status_flag)
    from Cons.IH [OF b] False a show ?thesis by simp
  qed
qed

lemma lookup_use_list_present:
  "Pkg q \<in> set pre \<Longrightarrow> Pkg q \<notin> set seen \<Longrightarrow> q < npackages w \<Longrightarrow>
     symbols (package_heap w q) name = Some (s, y) \<Longrightarrow>
     lookup_use_list w name pre seen \<noteq> Inr None"
proof (induction pre arbitrary: seen)
  case Nil
  then show ?case by simp
next
  case (Cons u pre)
  show ?case
  proof (cases "u = Pkg q")
    case True
    with Cons.prems show ?thesis by (simp add: lookup_local_hit)
  next
    case False
    with Cons.prems have m: "Pkg q \<in> set pre" by simp
    show ?thesis
    proof (cases "u \<in> set seen")
      case True
      with Cons.IH [OF m Cons.prems(2-4)] show ?thesis by simp
    next
      case f: False
      from False Cons.prems(2) have "Pkg q \<notin> set (u # seen)" by simp
      from Cons.IH [OF m this Cons.prems(3,4)] f show ?thesis
        by (auto split: sum.splits option.splits)
    qed
  qed
qed

lemma lookup_present_local:
  "lookup_symbol1 w name (Pkg p) seen True = Inr (Some s, so) \<Longrightarrow> so \<noteq> Some QCinherited \<Longrightarrow>
     p < npackages w \<and> (\<exists>y. symbols (package_heap w p) name = Some (s, y))"
  by (auto simp: lookup_symbol1.simps split: if_splits sum.splits option.splits)

text \<open>On well-formed use-lists the lookup signals no error.\<close>

lemma lookup_total:
  "use_lists_ok w \<Longrightarrow> PACKAGEP w package \<Longrightarrow>
     \<exists>f. lookup_symbol1 w name package seen st
           = Inr (f, if st then Some (case f of None \<Rightarrow> QCinherited | Some s \<Rightarrow>
                 (case package of Pkg p \<Rightarrow>
                    (case symbols (package_heap w p) name of
                       None \<Rightarrow> QCinherited | Some (s', y) \<Rightarrow> y) | _ \<Rightarrow> QCinherited)) else None)"
  "use_lists_ok w \<Longrightarrow> list_all (PACKAGEP w) tail \<Longrightarrow>
     \<exists>f. lookup_use_list w name tail seen = Inr f"
proof (induction w name package seen st and w name tail seen
       rule: lookup_symbol1_lookup_use_list.induct)
  case (1 w name package seen st)
  from 1(3) obtain p where p: "package = Pkg p" "p < npackages w"
    by (cases package) auto
  show ?case
  proof (cases "symbols (package_heap w p) name")
    case None
    from 1(2) p have "list_all (PACKAGEP w) (use_list (package_heap w p))"
      by (auto simp: use_lists_ok_def list_all_iff)
    from 1(1) [of "package_heap w p", OF _ _ None 1(2) this] p
    obtain f where "lookup_use_list w name (use_list (package_heap w p)) seen = Inr f"
      by auto
    with p None show ?thesis
      by (cases f) (auto simp: lookup_symbol1.simps)
  next
    case (Some a)
    with p show ?thesis by (cases a) (auto simp: lookup_symbol1.simps)
  qed
next
  case (2 w name seen)
  show ?case by simp
next
  case (3 w name used_package tail seen)
  show ?case
  proof (cases "used_package \<in> set seen")
    case True
    with 3 show ?thesis by simp
  next
    case False
    from 3(5) have u: "PACKAGEP w used_package" and t: "list_all (PACKAGEP w) tail" by simp_all
    from 3(1) [OF False 3(4) u] obtain f
      where f: "lookup_symbol1 w name used_package (used_package # seen) False = Inr (f, None)"
      by auto
    show ?thesis
    proof (cases f)
      case None
      with f 3(2) [OF False _ _ _ 3(4) t] False show ?thesis by simp
    next
      case (Some s)
      with f False show ?thesis by simp
    qed
  qed
qed

lemma lookup_symbol_total:
  assumes "use_lists_ok w" and "p < npackages w"
  shows "\<exists>f y. lookup_symbol w name (Pkg p) True = Inr (f, Some y)"
  using lookup_total(1) [OF assms(1), of "Pkg p" name "[]" True] assms(2)
  unfolding lookup_symbol_def by auto

lemma package_or_default_Pkg:
  "p < npackages w \<Longrightarrow> package_or_default w (Pkg p) = Inr (Pkg p)"
  by (simp add: package_or_default_def package_from_designator_def NILP_def Qnil_def)

lemma Ffind_symbol_Pkg:
  "p < npackages w \<Longrightarrow>
   Ffind_symbol w (Str name) (Pkg p) =
     (case lookup_symbol w name (Pkg p) True of
        Inl e \<Rightarrow> Inl e
      | Inr (None, _) \<Rightarrow> Inr None
      | Inr (Some symbol, status) \<Rightarrow> Inr (Some (symbol, status)))"
  by (simp add: Ffind_symbol_def package_or_default_Pkg)

section \<open>Properties of interning\<close>

text \<open>What \<^verbatim>\<open>pkg_intern_symbol\<close> returns, by the outcome of its lookup.\<close>

lemma intern_new_keyword:
  assumes "lookup_symbol w name (Pkg p) st = Inr (None, so0)"
    and kw: "Vkeyword_package w = Pkg p"
  shows "pkg_intern_symbol w (Str name) (Pkg p) st =
     Inr (nsymbols w, if st then Some QCexternal else None,
          w\<lparr>symbol_heap := (symbol_heap w)(nsymbols w :=
               \<lparr>sym_name = name, sym_package = Pkg p, sym_redirect = SYMBOL_PLAINVAL,
                sym_value = Some (Sym (nsymbols w)), sym_trapped_write = SYMBOL_NOWRITE,
                declared_special = True\<rparr>),
            nsymbols := Suc (nsymbols w),
            package_heap := (package_heap w)(p := (package_heap w p)
               \<lparr>symbols := (symbols (package_heap w p))(name \<mapsto> (nsymbols w, QCexternal))\<rparr>)\<rparr>)"
proof -
  from assms(1) have p: "p < npackages w"
    and m: "symbols (package_heap w p) name = None"
    unfolding lookup_symbol_def by (auto dest: lookup_is_package lookup_miss_local)
  show ?thesis
    using assms p m
    by (simp add: pkg_intern_symbol_def pkg_intern_symbol1_def Fmake_symbol_def Let_def
        update_symbol_def update_package_def pkg_add_symbol_def Fputhash_def SYMBOL_NAME_def
        Qnil_def)
qed

lemma intern_new_other:
  assumes "lookup_symbol w name (Pkg p) st = Inr (None, so0)"
    and kw: "Vkeyword_package w \<noteq> Pkg p"
  shows "pkg_intern_symbol w (Str name) (Pkg p) st =
     Inr (nsymbols w, if st then Some QCinternal else None,
          w\<lparr>symbol_heap := (symbol_heap w)(nsymbols w :=
               \<lparr>sym_name = name, sym_package = Pkg p, sym_redirect = SYMBOL_PLAINVAL,
                sym_value = None, sym_trapped_write = SYMBOL_UNTRAPPED_WRITE,
                declared_special = False\<rparr>),
            nsymbols := Suc (nsymbols w),
            package_heap := (package_heap w)(p := (package_heap w p)
               \<lparr>symbols := (symbols (package_heap w p))(name \<mapsto> (nsymbols w, QCinternal))\<rparr>)\<rparr>)"
proof -
  from assms(1) have p: "p < npackages w"
    and m: "symbols (package_heap w p) name = None"
    unfolding lookup_symbol_def by (auto dest: lookup_is_package lookup_miss_local)
  have "Pkg p \<noteq> Vkeyword_package w" using kw by auto
  then show ?thesis
    using assms p m
    by (simp add: pkg_intern_symbol_def pkg_intern_symbol1_def Fmake_symbol_def Let_def
        update_symbol_def update_package_def pkg_add_symbol_def Fputhash_def SYMBOL_NAME_def
        Qnil_def)
qed


lemma intern_found:
  assumes "lookup_symbol w name (Pkg p) st = Inr (Some s, so)"
  shows "pkg_intern_symbol w (Str name) (Pkg p) st = Inr (s, so, w)"
proof -
  from assms have p: "p < npackages w"
    unfolding lookup_symbol_def by (auto dest: lookup_is_package)
  show ?thesis using assms p
    by (simp add: pkg_intern_symbol_def pkg_intern_symbol1_def)
qed

lemma intern_error:
  assumes "lookup_symbol w name (Pkg p) st = Inl e"
  shows "pkg_intern_symbol w (Str name) (Pkg p) st = Inl (if enable_checking w \<and> \<not> p < npackages w then Eassert_Failed else e)"
  using assms by (simp add: pkg_intern_symbol_def pkg_intern_symbol1_def)

lemma intern_then_lookup:
  assumes a: "pkg_intern_symbol w (Str n) (Pkg p) st = Inr (s, so, w')"
  shows "lookup_symbol w' n (Pkg p) st = Inr (Some s, so)"
proof (cases "lookup_symbol w n (Pkg p) st")
  case (Inl e)
  with a show ?thesis
    by (simp add: pkg_intern_symbol_def pkg_intern_symbol1_def split: if_splits)
next
  case (Inr r)
  then have p: "p < npackages w"
    unfolding lookup_symbol_def by (auto dest: lookup_is_package)
  obtain f x where r: "r = (f, x)" by (cases r)
  show ?thesis
  proof (cases f)
    case (Some s')
    with Inr r intern_found [of w n p st s' x] a show ?thesis by simp
  next
    case None
    with Inr r have l: "lookup_symbol w n (Pkg p) st = Inr (None, x)" by simp
    show ?thesis
    proof (cases "Vkeyword_package w = Pkg p")
      case True
      from a [unfolded intern_new_keyword [OF l True]]
      have so: "so = (if st then Some QCexternal else None)"
        and w': "symbols (package_heap w' p) n = Some (s, QCexternal)"
          "npackages w' = npackages w"
        by auto
      show ?thesis
        unfolding lookup_symbol_def using w' p so by (simp add: lookup_local_hit)
    next
      case False
      from a [unfolded intern_new_other [OF l False]]
      have so: "so = (if st then Some QCinternal else None)"
        and w': "symbols (package_heap w' p) n = Some (s, QCinternal)"
          "npackages w' = npackages w"
        by auto
      show ?thesis
        unfolding lookup_symbol_def using w' p so by (simp add: lookup_local_hit)
    qed
  qed
qed

section \<open>Properties of the old intern functions\<close>







lemma package_or_default_PACKAGEP:
  "PACKAGEP w package \<Longrightarrow> package_or_default w package = Inr package"
  by (cases package)
     (simp_all add: package_or_default_def package_from_designator_def NILP_def Qnil_def)

section \<open>Lookups in the example states\<close>

lemmas world_defs = mk_world_def mk_package_def mk_symbol_def

lemma cycle_foo_absent:
  "lookup_symbol cycle_world ''foo'' (Pkg 1) True = Inr (None, Some QCinherited)"
  by (simp add: lookup_symbol_def lookup_symbol1.simps cycle_world_def world_defs)

lemma inherit_FOO:
  "lookup_symbol inherit_world ''FOO'' (Pkg 0) True = Inr (Some 1, Some QCinherited)"
  by (simp add: lookup_symbol_def lookup_symbol1.simps inherit_world_def world_defs)

lemma cycle_frob_absent:
  "lookup_symbol cycle_world ''frob'' (Pkg 2) True = Inr (None, Some QCinherited)"
  by (simp add: lookup_symbol_def lookup_symbol1.simps cycle_world_def world_defs)

lemma shadow_x_absent:
  "lookup_symbol shadow_world ''x'' (Pkg 1) True = Inr (None, Some QCinherited)"
  by (simp add: lookup_symbol_def lookup_symbol1.simps shadow_world_def world_defs)

lemma shadow_y_absent:
  "lookup_symbol shadow_world ''y'' (Pkg 1) True = Inr (None, Some QCinherited)"
  by (simp add: lookup_symbol_def lookup_symbol1.simps shadow_world_def world_defs)

lemma shadow_facts:
  "Vkeyword_package shadow_world \<noteq> Pkg 1" "nsymbols shadow_world = 2"
  by (simp_all add: shadow_world_def world_defs)

lemma inherit_FOO_local:
  "lookup_symbol inherit_world ''FOO'' (Pkg 1) True = Inr (Some 1, Some QCexternal)"
  by (simp add: lookup_symbol_def lookup_symbol1.simps inherit_world_def world_defs)

lemma inherit_facts:
  "package_or_default inherit_world (Pkg 1) = Inr (Pkg 1)"
  "package_or_default inherit_world Qnil = Inr (Pkg 0)"
  "SYMBOL_NAME inherit_world 1 = ''FOO''"
  "SYMBOL_PACKAGE inherit_world 1 = Pkg 1"
  "symbols (package_heap inherit_world 1) ''bar'' = Some (2, QCinternal)"
  by (simp_all add: package_or_default_def package_from_designator_def check_package_def
      NILP_def Qnil_def SYMBOL_NAME_def SYMBOL_PACKAGE_def inherit_world_def world_defs)

lemma cycle_world_ok: "use_lists_ok cycle_world"
  by (auto simp: use_lists_ok_def cycle_world_def world_defs less_Suc_eq numeral_3_eq_3)

lemma cycle_facts:
  "Vkeyword_package cycle_world = Pkg 2" "nsymbols cycle_world = 1" "2 < npackages cycle_world"
  by (simp_all add: cycle_world_def world_defs)


lemma cycle_frob_absent2:
  "lookup_symbol cycle_world ''frob'' (Pkg 2) False = Inr (None, None)"
  by (simp add: lookup_symbol_def lookup_symbol1.simps cycle_world_def world_defs)

lemma kw_facts:
  "Vkeyword_package kw_world = Pkg 1" "1 < npackages kw_world"
  "Vearmuffs_package kw_world = Pkg 0"
  "lookup_symbol kw_world ''frob'' (Pkg 1) False = Inr (Some 1, None)"
  "lookup_symbol kw_world ''zzz'' (Pkg 1) False = Inr (None, None)"
  "lookup_symbol kw_world ''frob'' (Pkg 0) False = Inr (Some 2, None)"
  "SYMBOL_PACKAGE kw_world 1 = Pkg 1"
  "enable_checking kw_world"
  by (simp_all add: lookup_symbol_def lookup_symbol1.simps SYMBOL_PACKAGE_def kw_world_def
      world_defs)

lemma kw_current:
  "pkg_emacs_intern_soft kw_world (Str ''frob'') Qnil = Inr (Sym 2, kw_world)"
  by (simp add: pkg_emacs_intern_soft_def package_or_default_def check_package_def NILP_def
      Qnil_def lookup_symbol_def lookup_symbol1.simps SYMBOL_PACKAGE_def kw_world_def world_defs)

section \<open>Cycle safety\<close>

text \<open>
  Claim C4. \<^verbatim>\<open>lookup_symbol1\<close> is a total function: the recursion through the use-lists
  ends on every graph of packages, cyclic or not, because each recursive call adds a
  package that was not seen before (the termination proof above). On packages that use
  each other, or on any set \<open>S\<close> of packages closed under the use-lists, the lookup of a
  name that none of them has in its table returns unbound; the status, when asked for, is
  \<^verbatim>\<open>:inherited\<close>, as the code leaves it.
\<close>

theorem lookup_cycle_safe:
  assumes "\<forall>x\<in>S. \<exists>p. x = Pkg p \<and> p < npackages w \<and>
              symbols (package_heap w p) name = None \<and>
              set (use_list (package_heap w p)) \<subseteq> S"
    and "package \<in> S"
  shows "lookup_symbol w name package st = Inr (None, if st then Some QCinherited else None)"
  unfolding lookup_symbol_def using assms by (rule lookup_closed_absent(1))

theorem lookup_cycle_safe_witness:
  "lookup_symbol cycle_world ''missing'' (Pkg 0) True = Inr (None, Some QCinherited)"
  using lookup_cycle_safe [of "{Pkg 0, Pkg 1}" cycle_world "''missing''" "Pkg 0" True]
  by (simp add: cycle_world_def mk_world_def mk_package_def)


section \<open>The seen list\<close>





section \<open>Interning twice\<close>

text \<open>
  Claim C2. If interning a name into a package returns a symbol \<open>s\<close>, a status and a
  state \<open>w'\<close>, then interning the same name into the same package again, in \<open>w'\<close>,
  returns the same symbol and status and leaves \<open>w'\<close> as it is: no table, home package or
  status changes. And if the name is accessible in the package by inheritance only, interning
  returns the inherited symbol and the state unchanged, so no local entry is added. With
  well-formed use-lists, interning a name into a package does return.
\<close>

theorem intern_idempotent:
  "(pkg_intern_symbol w name package st = Inr (s, so, w') \<longrightarrow>
      pkg_intern_symbol w' name package st = Inr (s, so, w'))
   \<and> (lookup_symbol w nm package True = Inr (Some s, Some QCinherited) \<longrightarrow>
      pkg_intern_symbol w (Str nm) package st
        = Inr (s, if st then Some QCinherited else None, w))
   \<and> (use_lists_ok w \<and> p < npackages w \<longrightarrow>
      (\<exists>s1 so1 w1. pkg_intern_symbol w (Str nm) (Pkg p) st = Inr (s1, so1, w1)))"
proof (intro conjI impI)
  assume a: "pkg_intern_symbol w name package st = Inr (s, so, w')"
  then obtain n where n: "name = Str n"
    by (cases name) (simp_all add: pkg_intern_symbol_def pkg_intern_symbol1_def)
  from a n obtain r where "lookup_symbol w n package st = Inr r"
    by (cases "lookup_symbol w n package st")
       (simp_all add: pkg_intern_symbol_def pkg_intern_symbol1_def split: if_splits)
  then obtain q where q: "package = Pkg q"
    unfolding lookup_symbol_def by (auto dest: lookup_is_package)
  from a have "lookup_symbol w' n (Pkg q) st = Inr (Some s, so)"
    unfolding n q by (rule intern_then_lookup)
  then show "pkg_intern_symbol w' name package st = Inr (s, so, w')"
    unfolding n q by (rule intern_found)
next
  assume l: "lookup_symbol w nm package True = Inr (Some s, Some QCinherited)"
  then obtain q where q: "package = Pkg q"
    unfolding lookup_symbol_def by (auto dest: lookup_is_package)
  from l have "lookup_symbol w nm package st
      = Inr (Some s, if st then Some QCinherited else None)"
    unfolding lookup_symbol_def by (subst lookup_any_flag) simp
  then show "pkg_intern_symbol w (Str nm) package st
      = Inr (s, if st then Some QCinherited else None, w)"
    unfolding q by (rule intern_found)
next
  assume "use_lists_ok w \<and> p < npackages w"
  with lookup_total(1) [of w "Pkg p" nm "[]" st]
  obtain f y where l: "lookup_symbol w nm (Pkg p) st = Inr (f, y)"
    unfolding lookup_symbol_def by auto
  show "\<exists>s1 so1 w1. pkg_intern_symbol w (Str nm) (Pkg p) st = Inr (s1, so1, w1)"
  proof (cases f)
    case (Some s')
    with l intern_found [of w nm p st s' y] show ?thesis by blast
  next
    case None
    with l have l0: "lookup_symbol w nm (Pkg p) st = Inr (None, y)" by simp
    show ?thesis
    proof (cases "Vkeyword_package w = Pkg p")
      case True
      from intern_new_keyword [OF l0 True] show ?thesis by blast
    next
      case False
      from intern_new_other [OF l0 False] show ?thesis by blast
    qed
  qed
qed

theorem intern_idempotent_witness:
  "(\<exists>w'. pkg_intern_symbol cycle_world (Str ''foo'') (Pkg 1) True = Inr (1, Some QCinternal, w')
       \<and> pkg_intern_symbol w' (Str ''foo'') (Pkg 1) True = Inr (1, Some QCinternal, w'))
   \<and> lookup_symbol inherit_world ''FOO'' (Pkg 0) True = Inr (Some 1, Some QCinherited)
   \<and> pkg_intern_symbol inherit_world (Str ''FOO'') (Pkg 0) True
       = Inr (1, Some QCinherited, inherit_world)
   \<and> use_lists_ok cycle_world
   \<and> (\<exists>s so w'. pkg_intern_symbol cycle_world (Str ''bar'') (Pkg 0) False = Inr (s, so, w'))"
proof -
  have k: "Vkeyword_package cycle_world \<noteq> Pkg 1"
    by (simp add: cycle_world_def world_defs)
  have n: "nsymbols cycle_world = 1" "0 < npackages cycle_world"
    by (simp_all add: cycle_world_def world_defs)
  from intern_new_other [OF cycle_foo_absent k]
  obtain w' where a: "pkg_intern_symbol cycle_world (Str ''foo'') (Pkg 1) True
      = Inr (1, Some QCinternal, w')"
    unfolding n by auto
  from intern_idempotent [of cycle_world "Str ''foo''" "Pkg 1" True 1 "Some QCinternal" w'] a
  have b: "pkg_intern_symbol w' (Str ''foo'') (Pkg 1) True = Inr (1, Some QCinternal, w')"
    by blast
  from intern_idempotent [of inherit_world _ "Pkg 0" True 1 _ _ "''FOO''"] inherit_FOO
  have c: "pkg_intern_symbol inherit_world (Str ''FOO'') (Pkg 0) True
       = Inr (1, Some QCinherited, inherit_world)"
    by simp
  from intern_idempotent [of cycle_world _ _ False _ _ _ "''bar''" 0] cycle_world_ok n(2)
  have d: "\<exists>s so w'. pkg_intern_symbol cycle_world (Str ''bar'') (Pkg 0) False = Inr (s, so, w')"
    by blast
  from a b c d inherit_FOO cycle_world_ok show ?thesis by blast
qed

section \<open>Interning a new name\<close>

text \<open>
  Claim C3. If a name is not accessible in a package P, interning it there allocates a new
  symbol (the next one of the store), with that name and with P as its home package, and
  enters it in the table of P: with status \<^verbatim>\<open>:external\<close> if P is the keyword package, and
  then the symbol's value is the symbol itself, it is a constant and it is declared special;
  with status \<^verbatim>\<open>:internal\<close> otherwise. A lookup of the name in P afterwards returns this
  symbol with this status.
\<close>

theorem intern_creates:
  assumes "lookup_symbol w name (Pkg p) st = Inr (None, so0)"
  shows "\<exists>w'. pkg_intern_symbol w (Str name) (Pkg p) st
            = Inr (nsymbols w,
                   if st then Some (if Pkg p = Vkeyword_package w then QCexternal else QCinternal)
                   else None, w')
          \<and> nsymbols w' = Suc (nsymbols w)
          \<and> SYMBOL_NAME w' (nsymbols w) = name
          \<and> SYMBOL_PACKAGE w' (nsymbols w) = Pkg p
          \<and> symbols (package_heap w' p) name
              = Some (nsymbols w, if Pkg p = Vkeyword_package w then QCexternal else QCinternal)
          \<and> (Pkg p = Vkeyword_package w \<longrightarrow>
                sym_redirect (symbol_heap w' (nsymbols w)) = SYMBOL_PLAINVAL
              \<and> sym_value (symbol_heap w' (nsymbols w)) = Some (Sym (nsymbols w))
              \<and> sym_trapped_write (symbol_heap w' (nsymbols w)) = SYMBOL_NOWRITE
              \<and> declared_special (symbol_heap w' (nsymbols w)))
          \<and> lookup_symbol w' name (Pkg p) True
              = Inr (Some (nsymbols w),
                     Some (if Pkg p = Vkeyword_package w then QCexternal else QCinternal))"
proof -
  from assms have p: "p < npackages w"
    unfolding lookup_symbol_def by (auto dest: lookup_is_package)
  show ?thesis
  proof (cases "Vkeyword_package w = Pkg p")
    case True
    then have eq: "(Pkg p = Vkeyword_package w) = True" by auto
    show ?thesis
      unfolding intern_new_keyword [OF assms True] eq
      using p by (simp add: SYMBOL_NAME_def SYMBOL_PACKAGE_def lookup_symbol_def lookup_local_hit)
  next
    case False
    then have eq: "(Pkg p = Vkeyword_package w) = False" by auto
    show ?thesis
      unfolding intern_new_other [OF assms False] eq
      using p by (simp add: SYMBOL_NAME_def SYMBOL_PACKAGE_def lookup_symbol_def lookup_local_hit)
  qed
qed

theorem intern_creates_witness:
  "lookup_symbol cycle_world ''frob'' (Pkg 2) True = Inr (None, Some QCinherited)
   \<and> (\<exists>w'. pkg_intern_symbol cycle_world (Str ''frob'') (Pkg 2) True
              = Inr (1, Some QCexternal, w')
          \<and> nsymbols w' = 2
          \<and> SYMBOL_NAME w' 1 = ''frob''
          \<and> SYMBOL_PACKAGE w' 1 = Pkg 2
          \<and> symbols (package_heap w' 2) ''frob'' = Some (1, QCexternal)
          \<and> sym_value (symbol_heap w' 1) = Some (Sym 1)
          \<and> sym_trapped_write (symbol_heap w' 1) = SYMBOL_NOWRITE
          \<and> declared_special (symbol_heap w' 1)
          \<and> lookup_symbol w' ''frob'' (Pkg 2) True = Inr (Some 1, Some QCexternal))
   \<and> lookup_symbol cycle_world ''foo'' (Pkg 1) True = Inr (None, Some QCinherited)
   \<and> (\<exists>w'. pkg_intern_symbol cycle_world (Str ''foo'') (Pkg 1) True
              = Inr (1, Some QCinternal, w')
          \<and> symbols (package_heap w' 1) ''foo'' = Some (1, QCinternal)
          \<and> lookup_symbol w' ''foo'' (Pkg 1) True = Inr (Some 1, Some QCinternal))"
proof -
  have k: "Vkeyword_package cycle_world = Pkg 2" and n: "nsymbols cycle_world = 1"
    by (simp_all add: cycle_world_def world_defs)
  from intern_creates [OF cycle_frob_absent] 
  have a: "\<exists>w'. pkg_intern_symbol cycle_world (Str ''frob'') (Pkg 2) True
              = Inr (1, Some QCexternal, w')
          \<and> nsymbols w' = 2
          \<and> SYMBOL_NAME w' 1 = ''frob''
          \<and> SYMBOL_PACKAGE w' 1 = Pkg 2
          \<and> symbols (package_heap w' 2) ''frob'' = Some (1, QCexternal)
          \<and> sym_value (symbol_heap w' 1) = Some (Sym 1)
          \<and> sym_trapped_write (symbol_heap w' 1) = SYMBOL_NOWRITE
          \<and> declared_special (symbol_heap w' 1)
          \<and> lookup_symbol w' ''frob'' (Pkg 2) True = Inr (Some 1, Some QCexternal)"
    unfolding k n by (fastforce simp: numeral_2_eq_2)
  from intern_creates [OF cycle_foo_absent]
  have b: "\<exists>w'. pkg_intern_symbol cycle_world (Str ''foo'') (Pkg 1) True
              = Inr (1, Some QCinternal, w')
          \<and> symbols (package_heap w' 1) ''foo'' = Some (1, QCinternal)
          \<and> lookup_symbol w' ''foo'' (Pkg 1) True = Inr (Some 1, Some QCinternal)"
    unfolding k n by (fastforce simp: numeral_2_eq_2)
  from a b cycle_frob_absent cycle_foo_absent show ?thesis by blast
qed



section \<open>Inherited symbols\<close>

text \<open>
  Claim C1, as the code has it. Let x be interned into B, and be present in B after that
  (internal or external there, not merely inherited by B). Let A have no x in its own
  table, let B be on the use-list of A, and let the packages listed before B give no x.
  Then the lookup of x in A returns the symbol of B with status \<^verbatim>\<open>:inherited\<close>, whatever
  its status in B; the table of A has no entry for x; and a call of \<^verbatim>\<open>lookup_symbol1\<close>
  without a status pointer, as the recursive calls are, writes no status.
\<close>

theorem inherited_lookup:
  assumes intern: "pkg_intern_symbol w (Str x) (Pkg b) True = Inr (s, so, w')"
    and present: "so \<noteq> Some QCinherited"
    and a: "a < npackages w'"
    and nolocal: "symbols (package_heap w' a) x = None"
    and uses: "use_list (package_heap w' a) = pre @ Pkg b # rest"
    and earlier: "lookup_use_list w' x pre [] = Inr None"
  shows "lookup_symbol w' x (Pkg a) True = Inr (Some s, Some QCinherited)
       \<and> symbols (package_heap w' a) x = None
       \<and> (\<forall>q seen r. lookup_symbol1 w' x q seen False = Inr r \<longrightarrow> snd r = None)"
proof -
  from intern_then_lookup [OF intern] present
  obtain y where b: "b < npackages w'" and y: "symbols (package_heap w' b) x = Some (s, y)"
    unfolding lookup_symbol_def by (auto dest: lookup_present_local)
  have nb: "Pkg b \<notin> set (seen_after pre [])"
  proof
    assume "Pkg b \<in> set (seen_after pre [])"
    then have "Pkg b \<in> set pre" by (simp add: set_seen_after)
    from lookup_use_list_present [OF this _ b y, of "[]"] earlier show False by simp
  qed
  have "lookup_use_list w' x (pre @ Pkg b # rest) [] = Inr (Some s)"
    unfolding lookup_use_list_append [OF earlier]
    using nb b y by (simp add: lookup_local_hit)
  then have 1: "lookup_symbol w' x (Pkg a) True = Inr (Some s, Some QCinherited)"
    unfolding lookup_symbol_def using a nolocal uses by (simp add: lookup_symbol1.simps)
  have 3: "\<forall>q seen r. lookup_symbol1 w' x q seen False = Inr r \<longrightarrow> snd r = None"
    using lookup_status_flag [of w' x _ _ False] by (metis prod.collapse)
  from 1 nolocal 3 show ?thesis by blast
qed


theorem inherited_lookup_witness:
  "\<exists>w'. pkg_intern_symbol shadow_world (Str ''y'') (Pkg 1) True = Inr (2, Some QCinternal, w')
       \<and> use_list (package_heap w' 0) = [Pkg 2] @ Pkg 1 # []
       \<and> lookup_use_list w' ''y'' [Pkg 2] [] = Inr None
       \<and> symbols (package_heap w' 0) ''y'' = None
       \<and> lookup_symbol w' ''y'' (Pkg 0) True = Inr (Some 2, Some QCinherited)"
proof -
  define w' where "w' = shadow_world
       \<lparr>symbol_heap := (symbol_heap shadow_world)(2 :=
          \<lparr>sym_name = ''y'', sym_package = Pkg 1, sym_redirect = SYMBOL_PLAINVAL,
           sym_value = None, sym_trapped_write = SYMBOL_UNTRAPPED_WRITE,
           declared_special = False\<rparr>),
        nsymbols := Suc 2,
        package_heap := (package_heap shadow_world)(1 := (package_heap shadow_world 1)
          \<lparr>symbols := (symbols (package_heap shadow_world 1))(''y'' \<mapsto> (2, QCinternal))\<rparr>)\<rparr>"
  have a: "pkg_intern_symbol shadow_world (Str ''y'') (Pkg 1) True
     = Inr (2, Some QCinternal, w')"
    unfolding intern_new_other [OF shadow_y_absent shadow_facts(1)] shadow_facts(2) w'_def
    by simp
  have b: "use_list (package_heap w' 0) = [Pkg 2] @ Pkg 1 # []"
    "symbols (package_heap w' 0) ''y'' = None" "0 < npackages w'"
    by (simp_all add: w'_def shadow_world_def world_defs)
  have c: "lookup_use_list w' ''y'' [Pkg 2] [] = Inr None"
    by (simp add: lookup_symbol1.simps w'_def shadow_world_def world_defs)
  from inherited_lookup [OF a _ b(3) b(2) b(1) c]
  have "lookup_symbol w' ''y'' (Pkg 0) True = Inr (Some 2, Some QCinherited)" by simp
  with a b c show ?thesis by blast
qed


text \<open>
  The claim as stated fails when a package listed before B on the use-list of A has a
  symbol of the same name: the first match wins.
\<close>

theorem inherited_lookup_counterexample:
  "pkg_intern_symbol shadow_world (Str ''x'') (Pkg 1) True
     = Inr (2, Some QCinternal, shadow_world_x)
   \<and> use_list (package_heap shadow_world_x 0) = [Pkg 2, Pkg 1]
   \<and> symbols (package_heap shadow_world_x 0) ''x'' = None
   \<and> lookup_symbol shadow_world_x ''x'' (Pkg 0) True = Inr (Some 1, Some QCinherited)
   \<and> lookup_symbol shadow_world_x ''x'' (Pkg 0) True \<noteq> Inr (Some 2, Some QCinherited)"
proof -
  have a: "pkg_intern_symbol shadow_world (Str ''x'') (Pkg 1) True
     = Inr (2, Some QCinternal, shadow_world_x)"
    unfolding intern_new_other [OF shadow_x_absent shadow_facts(1)] shadow_facts(2)
    by (simp add: shadow_world_x_def)
  have b: "use_list (package_heap shadow_world_x 0) = [Pkg 2, Pkg 1]"
    "symbols (package_heap shadow_world_x 0) ''x'' = None"
    by (simp_all add: shadow_world_x_def shadow_world_def world_defs)
  have c: "lookup_symbol shadow_world_x ''x'' (Pkg 0) True = Inr (Some 1, Some QCinherited)"
    by (simp add: lookup_symbol_def lookup_symbol1.simps shadow_world_x_def shadow_world_def
        world_defs)
  from a b c show ?thesis by simp
qed



section \<open>Uninterning a symbol\<close>

text \<open>
  Claim C5. \<^verbatim>\<open>pkg_unintern_symbol\<close> looks the name of the symbol up in the package. It
  returns true exactly when a symbol of that name is found with a status other than
  \<^verbatim>\<open>:inherited\<close>; then the entry for the name is gone from the table of the package (the
  other entries stay) and the symbol is gone from its shadowing list. If nothing is
  removed, the package is unchanged. In both cases no other package changes, the symbol's
  home package becomes nil if it was this package and stays what it was otherwise, the
  symbol keeps its name, and no other symbol changes.
\<close>

theorem unintern_removes:
  assumes pk: "package_or_default w package = Inr (Pkg p)"
    and l: "lookup_symbol w (SYMBOL_NAME w s) (Pkg p) True = Inr (found, status)"
  shows "\<exists>w'. pkg_unintern_symbol w (Sym s) package
            = Inr (found \<noteq> None \<and> status \<noteq> Some QCinherited, w')
     \<and> (found \<noteq> None \<and> status \<noteq> Some QCinherited \<longrightarrow>
           symbols (package_heap w' p) (SYMBOL_NAME w s) = None
         \<and> (\<forall>n. n \<noteq> SYMBOL_NAME w s \<longrightarrow>
                symbols (package_heap w' p) n = symbols (package_heap w p) n)
         \<and> shadowing_symbols (package_heap w' p)
             = removeAll (Sym s) (shadowing_symbols (package_heap w p)))
     \<and> (\<not> (found \<noteq> None \<and> status \<noteq> Some QCinherited) \<longrightarrow>
           package_heap w' p = package_heap w p)
     \<and> (\<forall>q. q \<noteq> p \<longrightarrow> package_heap w' q = package_heap w q)
     \<and> SYMBOL_PACKAGE w' s = (if SYMBOL_PACKAGE w s = Pkg p then Qnil else SYMBOL_PACKAGE w s)
     \<and> SYMBOL_NAME w' s = SYMBOL_NAME w s
     \<and> (\<forall>t. t \<noteq> s \<longrightarrow> symbol_heap w' t = symbol_heap w t)
     \<and> nsymbols w' = nsymbols w \<and> npackages w' = npackages w"
proof -
  from l have p: "p < npackages w"
    unfolding lookup_symbol_def by (auto dest: lookup_is_package)
  show ?thesis
  proof (cases "found \<noteq> None \<and> status \<noteq> Some QCinherited")
    case True
    then show ?thesis using pk l p
      by (auto simp: pkg_unintern_symbol_def remove_shadowing_symbol_def pkg_remove_symbol_def
          update_package_def update_symbol_def SYMBOL_NAME_def SYMBOL_PACKAGE_def)
  next
    case False
    then show ?thesis using pk l p
      by (auto simp: pkg_unintern_symbol_def update_symbol_def SYMBOL_NAME_def SYMBOL_PACKAGE_def)
  qed
qed


theorem unintern_removes_witness:
  "(\<exists>w'. pkg_unintern_symbol inherit_world (Sym 1) (Pkg 1) = Inr (True, w')
       \<and> symbols (package_heap w' 1) ''FOO'' = None
       \<and> symbols (package_heap w' 1) ''bar'' = Some (2, QCinternal)
       \<and> package_heap w' 0 = package_heap inherit_world 0
       \<and> SYMBOL_PACKAGE w' 1 = Qnil
       \<and> SYMBOL_NAME w' 1 = ''FOO'')
   \<and> (\<exists>w'. pkg_unintern_symbol inherit_world (Sym 1) Qnil = Inr (False, w')
       \<and> package_heap w' 0 = package_heap inherit_world 0
       \<and> package_heap w' 1 = package_heap inherit_world 1
       \<and> SYMBOL_PACKAGE w' 1 = Pkg 1)"
proof -
  from unintern_removes [OF inherit_facts(1), of 1 "Some 1" "Some QCexternal"]
  have a: "\<exists>w'. pkg_unintern_symbol inherit_world (Sym 1) (Pkg 1) = Inr (True, w')
       \<and> symbols (package_heap w' 1) ''FOO'' = None
       \<and> symbols (package_heap w' 1) ''bar'' = Some (2, QCinternal)
       \<and> package_heap w' 0 = package_heap inherit_world 0
       \<and> SYMBOL_PACKAGE w' 1 = Qnil
       \<and> SYMBOL_NAME w' 1 = ''FOO''"
    unfolding inherit_facts(3,4) using inherit_FOO_local inherit_facts(5) by fastforce
  from unintern_removes [OF inherit_facts(2), of 1 "Some 1" "Some QCinherited"]
  have b: "\<exists>w'. pkg_unintern_symbol inherit_world (Sym 1) Qnil = Inr (False, w')
       \<and> package_heap w' 0 = package_heap inherit_world 0
       \<and> package_heap w' 1 = package_heap inherit_world 1
       \<and> SYMBOL_PACKAGE w' 1 = Pkg 1"
    unfolding inherit_facts(3,4) using inherit_FOO by fastforce
  from a b show ?thesis by blast
qed



section \<open>Qualified symbols in the keyword package\<close>

text \<open>
  Claim C6. With well-formed use-lists, \<^verbatim>\<open>pkg_qualified_symbol\<close> on the keyword package
  returns a symbol for every name, and called again with the same name in the resulting
  state it returns the same symbol and changes nothing. If the name was not accessible in
  the keyword package, the symbol is new: it has the name, the keyword package is its home,
  it is external in the table of the keyword package, its value is the symbol itself, it
  is a constant, and it is declared special.
\<close>

theorem keyword_qualified:
  assumes ok: "use_lists_ok w"
    and kw: "Vkeyword_package w = Pkg k" and k: "k < npackages w"
  shows "\<exists>s w'. pkg_qualified_symbol w (Str name) (Pkg k) external = Inr (s, w')
     \<and> pkg_qualified_symbol w' (Str name) (Pkg k) external = Inr (s, w')
     \<and> ((\<exists>y. lookup_symbol w name (Pkg k) True = Inr (None, y)) \<longrightarrow>
           s = nsymbols w \<and> nsymbols w' = Suc (nsymbols w)
         \<and> SYMBOL_NAME w' s = name
         \<and> SYMBOL_PACKAGE w' s = Pkg k
         \<and> symbols (package_heap w' k) name = Some (s, QCexternal)
         \<and> sym_redirect (symbol_heap w' s) = SYMBOL_PLAINVAL
         \<and> sym_value (symbol_heap w' s) = Some (Sym s)
         \<and> sym_trapped_write (symbol_heap w' s) = SYMBOL_NOWRITE
         \<and> declared_special (symbol_heap w' s))"
proof -
  from lookup_symbol_total [OF ok k, of name]
  obtain f y where l: "lookup_symbol w name (Pkg k) True = Inr (f, Some y)" by auto
  show ?thesis
  proof (cases f)
    case (Some s)
    with l kw k have "pkg_qualified_symbol w (Str name) (Pkg k) external = Inr (s, w)"
      by (simp add: pkg_qualified_symbol_def Ffind_symbol_Pkg)
    with Some l show ?thesis by auto
  next
    case None
    with l have l0: "lookup_symbol w name (Pkg k) False = Inr (None, None)"
      unfolding lookup_symbol_def by (subst lookup_any_flag) simp
    let ?w' = "w\<lparr>symbol_heap := (symbol_heap w)(nsymbols w :=
               \<lparr>sym_name = name, sym_package = Pkg k, sym_redirect = SYMBOL_PLAINVAL,
                sym_value = Some (Sym (nsymbols w)), sym_trapped_write = SYMBOL_NOWRITE,
                declared_special = True\<rparr>),
            nsymbols := Suc (nsymbols w),
            package_heap := (package_heap w)(k := (package_heap w k)
               \<lparr>symbols := (symbols (package_heap w k))(name \<mapsto> (nsymbols w, QCexternal))\<rparr>)\<rparr>"
    have a: "pkg_qualified_symbol w (Str name) (Pkg k) external = Inr (nsymbols w, ?w')"
      using l None kw k intern_new_keyword [OF l0 kw]
      by (simp add: pkg_qualified_symbol_def Ffind_symbol_Pkg)
    have "lookup_symbol ?w' name (Pkg k) True = Inr (Some (nsymbols w), Some QCexternal)"
      unfolding lookup_symbol_def using k by (simp add: lookup_local_hit)
    then have b: "pkg_qualified_symbol ?w' (Str name) (Pkg k) external = Inr (nsymbols w, ?w')"
      using kw k by (simp add: pkg_qualified_symbol_def Ffind_symbol_Pkg)
    show ?thesis
      apply (rule exI [of _ "nsymbols w"])
      apply (rule exI [of _ ?w'])
      using a b by (simp add: SYMBOL_NAME_def SYMBOL_PACKAGE_def)
  qed
qed

theorem keyword_qualified_witness:
  "use_lists_ok cycle_world \<and> Vkeyword_package cycle_world = Pkg 2
   \<and> lookup_symbol cycle_world ''frob'' (Pkg 2) True = Inr (None, Some QCinherited)
   \<and> (\<exists>w'. pkg_qualified_symbol cycle_world (Str ''frob'') (Pkg 2) True = Inr (1, w')
        \<and> pkg_qualified_symbol w' (Str ''frob'') (Pkg 2) True = Inr (1, w')
        \<and> SYMBOL_NAME w' 1 = ''frob''
        \<and> symbols (package_heap w' 2) ''frob'' = Some (1, QCexternal)
        \<and> sym_value (symbol_heap w' 1) = Some (Sym 1)
        \<and> sym_trapped_write (symbol_heap w' 1) = SYMBOL_NOWRITE
        \<and> declared_special (symbol_heap w' 1))"
proof -
  from keyword_qualified [OF cycle_world_ok cycle_facts(1,3), of "''frob''" True]
  have "\<exists>w'. pkg_qualified_symbol cycle_world (Str ''frob'') (Pkg 2) True = Inr (1, w')
        \<and> pkg_qualified_symbol w' (Str ''frob'') (Pkg 2) True = Inr (1, w')
        \<and> SYMBOL_NAME w' 1 = ''frob''
        \<and> symbols (package_heap w' 2) ''frob'' = Some (1, QCexternal)
        \<and> sym_value (symbol_heap w' 1) = Some (Sym 1)
        \<and> sym_trapped_write (symbol_heap w' 1) = SYMBOL_NOWRITE
        \<and> declared_special (symbol_heap w' 1)"
    unfolding cycle_facts(2) using cycle_frob_absent by fastforce
  with cycle_world_ok cycle_facts(1) cycle_frob_absent show ?thesis by blast
qed


section \<open>Qualified symbols in other packages\<close>

text \<open>
  For a package P that is not the keyword package, \<^verbatim>\<open>pkg_qualified_symbol\<close> signals that
  the symbol is not accessible when the lookup finds nothing, and that it is internal when
  an external symbol is asked for and the status found is \<^verbatim>\<open>:internal\<close>. A symbol that P
  inherits from a package Q of its use-list where it is external is returned.
\<close>

lemma qualified_errors:
  assumes nk: "Vkeyword_package w \<noteq> Pkg p"
  shows "((\<exists>y. lookup_symbol w name (Pkg p) True = Inr (None, y)) \<longrightarrow>
            pkg_qualified_symbol w (Str name) (Pkg p) external = Inl (Not_Accessible name))
     \<and> (lookup_symbol w name (Pkg p) True = Inr (Some s, Some QCinternal) \<longrightarrow>
            pkg_qualified_symbol w (Str name) (Pkg p) True = Inl (Is_Internal name))
     \<and> (lookup_symbol w name (Pkg p) True = Inr (Some s, Some QCinherited)
          \<and> q < npackages w \<and> symbols (package_heap w q) name = Some (s, QCexternal) \<longrightarrow>
            pkg_qualified_symbol w (Str name) (Pkg p) external = Inr (s, w))"
proof -
  have nk': "Pkg p \<noteq> Vkeyword_package w" using nk by auto
  have 1: "pkg_qualified_symbol w (Str name) (Pkg p) external = Inl (Not_Accessible name)"
    if "lookup_symbol w name (Pkg p) True = Inr (None, y)" for y
  proof -
    from that have "p < npackages w"
      unfolding lookup_symbol_def by (auto dest: lookup_is_package)
    with that nk' show ?thesis
      by (simp add: pkg_qualified_symbol_def Ffind_symbol_Pkg)
  qed
  have 2: "pkg_qualified_symbol w (Str name) (Pkg p) True = Inl (Is_Internal name)"
    if "lookup_symbol w name (Pkg p) True = Inr (Some s, Some QCinternal)"
  proof -
    from that have "p < npackages w"
      unfolding lookup_symbol_def by (auto dest: lookup_is_package)
    with that nk' show ?thesis
      by (simp add: pkg_qualified_symbol_def Ffind_symbol_Pkg)
  qed
  have 3: "pkg_qualified_symbol w (Str name) (Pkg p) external = Inr (s, w)"
    if "lookup_symbol w name (Pkg p) True = Inr (Some s, Some QCinherited)"
  proof -
    from that have p: "p < npackages w"
      unfolding lookup_symbol_def by (auto dest: lookup_is_package)
    with that nk' show ?thesis
      by (simp add: pkg_qualified_symbol_def Ffind_symbol_Pkg)
  qed
  from 1 2 3 show ?thesis by blast
qed

text \<open>
  Claim C7. An external-only qualified reference to a symbol that P has no entry for and
  inherits from a package Q of its use-list is to succeed only if the symbol is external in
  Q. The code does not reject the other case: it compares the status that the lookup in P
  reports with \<^verbatim>\<open>:internal\<close>, and for an inherited symbol that status is \<^verbatim>\<open>:inherited\<close>.
  With P using Q and bar internal in Q, the external-only reference to bar in P returns the
  symbol.
\<close>

theorem qualified_inherited_internal_accepted:
  "use_list (package_heap inherit_world 0) = [Pkg 1]
   \<and> symbols (package_heap inherit_world 0) ''bar'' = None
   \<and> symbols (package_heap inherit_world 1) ''bar'' = Some (2, QCinternal)
   \<and> Vkeyword_package inherit_world \<noteq> Pkg 0
   \<and> pkg_qualified_symbol inherit_world (Str ''bar'') (Pkg 0) True = Inr (2, inherit_world)"
  by (simp add: pkg_qualified_symbol_def Ffind_symbol_def package_or_default_def
      package_from_designator_def NILP_def Qnil_def lookup_symbol_def lookup_symbol1.simps
      inherit_world_def world_defs)

section \<open>The old intern-soft\<close>





section \<open>Names with a leading colon\<close>

text \<open>
  Claim C10. With nil as the package argument and a name that begins with a colon, the old
  intern and intern-soft do what they do for the name without the colon and the keyword
  package as the package argument (including the assertion of \<^verbatim>\<open>pkg_emacs_intern\<close>,
  compiled in with checking, that the name it goes on with has no leading colon);
  \<^verbatim>\<open>pkg_intern_maybe_keyword\<close> interns the rest of the name in the keyword package. The
  lookup is that of the rest of the name in the keyword package: intern-soft returns nil
  if it finds nothing and the symbol it finds otherwise, and intern returns the symbol it
  finds. So, where the assertion holds, interning \<^verbatim>\<open>:foo\<close> is interning \<^verbatim>\<open>foo\<close> in the
  keyword package: if it was not accessible there, the result is a new symbol named
  \<^verbatim>\<open>foo\<close>, at home in the keyword package and external in its table, whose value is
  itself, constant and declared special, and no other package changes.
\<close>

theorem legacy_keyword:
  assumes kw: "Vkeyword_package w = Pkg k" and k: "k < npackages w"
  shows "pkg_emacs_intern w (Str (CHR '':'' # rest)) Qnil
           = pkg_emacs_intern w (Str rest) (Vkeyword_package w)
     \<and> pkg_emacs_intern_soft w (Str (CHR '':'' # rest)) Qnil
           = pkg_emacs_intern_soft w (Str rest) (Vkeyword_package w)
     \<and> pkg_intern_maybe_keyword w (Str (CHR '':'' # rest))
           = pkg_intern_symbol w (Str rest) (Vkeyword_package w) False
     \<and> ((enable_checking w \<longrightarrow> \<not> starts_with_colon rest) \<longrightarrow>
           pkg_emacs_intern w (Str (CHR '':'' # rest)) Qnil
             = pkg_intern_symbol w (Str rest) (Vkeyword_package w) False)
     \<and> ((enable_checking w \<longrightarrow> \<not> starts_with_colon rest)
          \<and> lookup_symbol w rest (Pkg k) False = Inr (None, None) \<longrightarrow>
           (\<exists>w'. pkg_emacs_intern w (Str (CHR '':'' # rest)) Qnil = Inr (nsymbols w, None, w')
              \<and> SYMBOL_NAME w' (nsymbols w) = rest
              \<and> SYMBOL_PACKAGE w' (nsymbols w) = Vkeyword_package w
              \<and> symbols (package_heap w' k) rest = Some (nsymbols w, QCexternal)
              \<and> sym_value (symbol_heap w' (nsymbols w)) = Some (Sym (nsymbols w))
              \<and> sym_trapped_write (symbol_heap w' (nsymbols w)) = SYMBOL_NOWRITE
              \<and> declared_special (symbol_heap w' (nsymbols w))
              \<and> (\<forall>q. q \<noteq> k \<longrightarrow> package_heap w' q = package_heap w q)))
     \<and> ((enable_checking w \<longrightarrow> \<not> starts_with_colon rest)
          \<and> lookup_symbol w rest (Pkg k) False = Inr (Some s, None) \<longrightarrow>
           pkg_emacs_intern w (Str (CHR '':'' # rest)) Qnil = Inr (s, None, w))
     \<and> (lookup_symbol w rest (Pkg k) False = Inr (None, None) \<longrightarrow>
           pkg_emacs_intern_soft w (Str (CHR '':'' # rest)) Qnil = Inr (Qnil, w))
     \<and> (lookup_symbol w rest (Pkg k) False = Inr (Some s, None)
          \<and> (enable_checking w \<longrightarrow> \<not> NILP (SYMBOL_PACKAGE w s)) \<longrightarrow>
           pkg_emacs_intern_soft w (Str (CHR '':'' # rest)) Qnil = Inr (Sym s, w))"
proof -
  have n: "\<not> NILP (Pkg k)" by (simp add: NILP_def Qnil_def)
  have pd: "package_or_default w (Pkg k) = Inr (Pkg k)"
    using k by (simp add: package_or_default_PACKAGEP)
  have 1: "pkg_emacs_intern w (Str (CHR '':'' # rest)) Qnil
           = pkg_emacs_intern w (Str rest) (Vkeyword_package w)"
    using n by (simp add: pkg_emacs_intern_def kw NILP_def)
  have 2: "pkg_emacs_intern_soft w (Str (CHR '':'' # rest)) Qnil
           = pkg_emacs_intern_soft w (Str rest) (Vkeyword_package w)"
    using n by (simp add: pkg_emacs_intern_soft_def kw NILP_def split: sum.splits option.splits)
  have 3: "pkg_emacs_intern w (Str (CHR '':'' # rest)) Qnil
             = pkg_intern_symbol w (Str rest) (Vkeyword_package w) False"
    if "enable_checking w \<longrightarrow> \<not> starts_with_colon rest"
    using that pd by (auto simp: pkg_emacs_intern_def kw NILP_def)
  have 4: "\<exists>w'. pkg_emacs_intern w (Str (CHR '':'' # rest)) Qnil = Inr (nsymbols w, None, w')
              \<and> SYMBOL_NAME w' (nsymbols w) = rest
              \<and> SYMBOL_PACKAGE w' (nsymbols w) = Vkeyword_package w
              \<and> symbols (package_heap w' k) rest = Some (nsymbols w, QCexternal)
              \<and> sym_value (symbol_heap w' (nsymbols w)) = Some (Sym (nsymbols w))
              \<and> sym_trapped_write (symbol_heap w' (nsymbols w)) = SYMBOL_NOWRITE
              \<and> declared_special (symbol_heap w' (nsymbols w))
              \<and> (\<forall>q. q \<noteq> k \<longrightarrow> package_heap w' q = package_heap w q)"
    if a: "enable_checking w \<longrightarrow> \<not> starts_with_colon rest"
      and l: "lookup_symbol w rest (Pkg k) False = Inr (None, None)"
    unfolding 3 [OF a] kw intern_new_keyword [OF l kw]
    by (simp add: SYMBOL_NAME_def SYMBOL_PACKAGE_def)
  have 5: "pkg_intern_maybe_keyword w (Str (CHR '':'' # rest))
           = pkg_intern_symbol w (Str rest) (Vkeyword_package w) False"
    by (simp add: pkg_intern_maybe_keyword_def)
  have 6: "pkg_emacs_intern_soft w (Str (CHR '':'' # rest)) Qnil = Inr (Qnil, w)"
    if "lookup_symbol w rest (Pkg k) False = Inr (None, None)"
    using that pd by (simp add: pkg_emacs_intern_soft_def kw NILP_def)
  have 7: "pkg_emacs_intern_soft w (Str (CHR '':'' # rest)) Qnil = Inr (Sym s, w)"
    if "lookup_symbol w rest (Pkg k) False = Inr (Some s, None)"
      and "enable_checking w \<longrightarrow> \<not> NILP (SYMBOL_PACKAGE w s)"
    using that pd by (simp add: pkg_emacs_intern_soft_def kw NILP_def)
  have 8: "pkg_emacs_intern w (Str (CHR '':'' # rest)) Qnil = Inr (s, None, w)"
    if "enable_checking w \<longrightarrow> \<not> starts_with_colon rest"
      and l: "lookup_symbol w rest (Pkg k) False = Inr (Some s, None)"
    using that(1) pd intern_found [OF l]
    by (auto simp: pkg_emacs_intern_def kw NILP_def)
  from 1 2 3 4 5 6 7 8 show ?thesis by blast
qed

theorem legacy_keyword_witness:
  "Vkeyword_package cycle_world = Pkg 2 \<and> Vearmuffs_package cycle_world = Pkg 0
   \<and> pkg_emacs_intern cycle_world (Str '':frob'') Qnil
       = pkg_emacs_intern cycle_world (Str ''frob'') (Pkg 2)
   \<and> pkg_emacs_intern_soft cycle_world (Str '':frob'') Qnil
       = pkg_emacs_intern_soft cycle_world (Str ''frob'') (Pkg 2)
   \<and> (\<exists>w'. pkg_emacs_intern cycle_world (Str '':frob'') Qnil = Inr (1, None, w')
        \<and> SYMBOL_NAME w' 1 = ''frob''
        \<and> SYMBOL_PACKAGE w' 1 = Pkg 2
        \<and> symbols (package_heap w' 2) ''frob'' = Some (1, QCexternal)
        \<and> sym_value (symbol_heap w' 1) = Some (Sym 1)
        \<and> sym_trapped_write (symbol_heap w' 1) = SYMBOL_NOWRITE
        \<and> declared_special (symbol_heap w' 1)
        \<and> package_heap w' 0 = package_heap cycle_world 0)
   \<and> Vkeyword_package kw_world = Pkg 1 \<and> Vearmuffs_package kw_world = Pkg 0
   \<and> lookup_symbol kw_world ''frob'' (Pkg 1) False = Inr (Some 1, None)
   \<and> lookup_symbol kw_world ''frob'' (Pkg 0) False = Inr (Some 2, None)
   \<and> pkg_emacs_intern_soft kw_world (Str '':frob'') Qnil = Inr (Sym 1, kw_world)
   \<and> pkg_emacs_intern_soft kw_world (Str ''frob'') Qnil = Inr (Sym 2, kw_world)
   \<and> pkg_emacs_intern_soft kw_world (Str '':zzz'') Qnil = Inr (Qnil, kw_world)
   \<and> pkg_emacs_intern kw_world (Str '':frob'') Qnil = Inr (1, None, kw_world)"
proof -
  have c: "\<not> enable_checking cycle_world" "Vearmuffs_package cycle_world = Pkg 0"
    by (simp_all add: cycle_world_def world_defs)
  from legacy_keyword [OF cycle_facts(1,3), of "''frob''"] c cycle_frob_absent2
  have a: "pkg_emacs_intern cycle_world (Str '':frob'') Qnil
       = pkg_emacs_intern cycle_world (Str ''frob'') (Pkg 2)
   \<and> pkg_emacs_intern_soft cycle_world (Str '':frob'') Qnil
       = pkg_emacs_intern_soft cycle_world (Str ''frob'') (Pkg 2)
   \<and> (\<exists>w'. pkg_emacs_intern cycle_world (Str '':frob'') Qnil = Inr (1, None, w')
        \<and> SYMBOL_NAME w' 1 = ''frob''
        \<and> SYMBOL_PACKAGE w' 1 = Pkg 2
        \<and> symbols (package_heap w' 2) ''frob'' = Some (1, QCexternal)
        \<and> sym_value (symbol_heap w' 1) = Some (Sym 1)
        \<and> sym_trapped_write (symbol_heap w' 1) = SYMBOL_NOWRITE
        \<and> declared_special (symbol_heap w' 1)
        \<and> package_heap w' 0 = package_heap cycle_world 0)"
    unfolding cycle_facts(1,2) by fastforce
  have nn: "\<not> NILP (SYMBOL_PACKAGE kw_world 1)" "\<not> starts_with_colon ''frob''"
    using kw_facts(7) by (simp_all add: NILP_def Qnil_def)
  from legacy_keyword [OF kw_facts(1,2), of "''frob''" 1] kw_facts(4) nn
  have b: "pkg_emacs_intern_soft kw_world (Str '':frob'') Qnil = Inr (Sym 1, kw_world)"
    "pkg_emacs_intern kw_world (Str '':frob'') Qnil = Inr (1, None, kw_world)"
    by blast+
  from legacy_keyword [OF kw_facts(1,2), of "''zzz''"] kw_facts(5)
  have d: "pkg_emacs_intern_soft kw_world (Str '':zzz'') Qnil = Inr (Qnil, kw_world)"
    by blast
  from a b d c cycle_facts(1) kw_facts(1,3,4,6) kw_current show ?thesis by blast
qed

end
